theory Spec2Isabelle
  imports Complex_Main "HOL-Library.Sublist" "HOL-Library.AList"
begin

section \<open>Data model\<close>

text \<open>
  The program is \<^verbatim>\<open>src/main2.py\<close>: a LangGraph pipeline with an interview sub-graph.
  Its nodes are Python functions from a state snapshot to a patch (a dict of the keys
  the node writes); its routers are functions from a snapshot to node names.

  Python exceptions are values of \<open>error\<close>; a fallible computation returns
  \<open>error + 'a\<close>, \<open>Inl\<close> being the raise.
\<close>

datatype error =
    IndexError
  | KeyError string
  | CollaboratorError string
  | GraphRecursionError

text \<open>
  A LangChain message: its class (\<^verbatim>\<open>isinstance(m, AIMessage)\<close> is a test on \<open>kind\<close>),
  its text and its optional \<^verbatim>\<open>name\<close> attribute (\<^verbatim>\<open>None\<close> unless set).
\<close>

datatype msg_kind = AIMessage | HumanMessage | SystemMessage

record message =
  kind :: msg_kind
  content :: string
  name :: "string option"

text \<open>
  Modelled from the spec: the record types of \<^verbatim>\<open>models.py\<close> (\<^verbatim>\<open>Analyst\<close>, \<^verbatim>\<open>Market\<close>,
  \<^verbatim>\<open>Recommendation\<close>, \<^verbatim>\<open>InterviewState\<close>, \<^verbatim>\<open>ResearchGraphState\<close>,
  \<^verbatim>\<open>GenerateAnalystsState\<close>), which the source imports and which carry the fields the
  nodes read. Prices are Python floats that the code only carries around, never
  computes with; they are rationals here.
\<close>

record analyst =
  analyst_name :: string
  description :: string
  persona :: string

record market =
  question :: string
  market_description :: string
  outcomes :: "string list"
  outcome_prices :: "rat list"
  end_date :: string
  volume :: rat

record recommendation =
  outcome :: string
  conviction :: rat
  reasoning :: string

text \<open>
  \<^verbatim>\<open>InterviewState\<close> is a dict; \<^verbatim>\<open>max_num_turns\<close> may be absent (the router reads it
  with \<^verbatim>\<open>state.get("max_num_turns", 2)\<close>), and \<^verbatim>\<open>interview\<close> is absent until
  \<^verbatim>\<open>save_interview\<close> has written it. The key \<^verbatim>\<open>context\<close> is the field
  \<open>context_docs\<close> (the source's name is a reserved word here).
\<close>

record interview_state =
  analyst :: analyst
  messages :: "message list"
  context_docs :: "string list"
  interview :: "string option"
  max_num_turns :: "int option"

text \<open>The top-level state (\<^verbatim>\<open>ResearchGraphState\<close>), a pydantic object read by attribute.\<close>

record research_state =
  market :: market
  max_analysts :: int
  analysts :: "analyst list"
  sections :: "string list"
  recommendation :: "recommendation option"

text \<open>
  A patch is the dict a node returns: a key that is absent is \<open>None\<close>. Interview nodes
  write \<^verbatim>\<open>messages\<close>, \<^verbatim>\<open>context\<close>, \<^verbatim>\<open>interview\<close> and \<^verbatim>\<open>sections\<close>; pipeline nodes
  write \<^verbatim>\<open>analysts\<close> and \<^verbatim>\<open>recommendation\<close>.
\<close>

record interview_patch =
  p_messages :: "message list option"
  p_context :: "string list option"
  p_interview :: "string option"
  p_sections :: "string list option"

record research_patch =
  p_analysts :: "analyst list option"
  p_recommendation :: "recommendation option"

definition no_patch :: interview_patch where
  "no_patch = \<lparr>p_messages = None, p_context = None, p_interview = None, p_sections = None\<rparr>"

text \<open>A retrieved Wikipedia document: a metadata dict and the page text.\<close>

record wiki_doc =
  metadata :: "(string \<times> string) list"
  page_content :: string

text \<open>
  What a chat model returns from \<^verbatim>\<open>llm.invoke\<close>: an \<^verbatim>\<open>AIMessage\<close> with some text and
  whatever \<^verbatim>\<open>name\<close> the provider set.
\<close>

record reply =
  reply_content :: string
  reply_name :: "string option"

definition ai_message :: "reply \<Rightarrow> message" where
  "ai_message r = \<lparr>kind = AIMessage, content = reply_content r, name = reply_name r\<rparr>"

definition system_message :: "string \<Rightarrow> message" where
  "system_message c = \<lparr>kind = SystemMessage, content = c, name = None\<rparr>"

definition human_message :: "string \<Rightarrow> message" where
  "human_message c = \<lparr>kind = HumanMessage, content = c, name = None\<rparr>"

text \<open>
  The external collaborators and the prompt templates, as parameters. The language
  model, the two retrieval services and \<^verbatim>\<open>get_buffer_string\<close> are libraries outside
  the repository; each call may raise. A prompt template applied with
  \<^verbatim>\<open>.format(...)\<close> is a function of the values substituted into it (its wording and
  Python's rendering of objects are not modelled); \<open>str_context\<close> is the rendering of
  the context list inside an f-string.
\<close>

record env =
  llm_invoke :: "message list \<Rightarrow> error + reply"
  llm_search_query :: "message list \<Rightarrow> error + string"
  llm_perspectives :: "message list \<Rightarrow> error + analyst list"
  llm_recommendation :: "message list \<Rightarrow> error + recommendation"
  tavily_search :: "string \<Rightarrow> error + (string \<times> string) list list"
  wikipedia_load :: "string \<Rightarrow> error + wiki_doc list"
  get_buffer_string :: "message list \<Rightarrow> string"
  question_instructions :: "string \<Rightarrow> string"
  answer_instructions :: "string \<Rightarrow> string list \<Rightarrow> string"
  section_writer_instructions :: "string \<Rightarrow> string"
  search_instructions :: string
  analyst_instructions :: "market \<Rightarrow> (string \<times> rat) list \<Rightarrow> int \<Rightarrow> string"
  recommendation_instructions :: "market \<Rightarrow> (string \<times> rat) list \<Rightarrow> string \<Rightarrow> string"
  str_context :: "string list \<Rightarrow> string"

section \<open>Python primitives\<close>

text \<open>\<^verbatim>\<open>xs[i]\<close>: a negative index counts from the end, out of range raises.\<close>

definition py_index :: "'a list \<Rightarrow> int \<Rightarrow> error + 'a" where
  "py_index xs i =
     (if 0 \<le> i \<and> i < int (length xs) then Inr (xs ! nat i)
      else if i < 0 \<and> - int (length xs) \<le> i then Inr (xs ! nat (int (length xs) + i))
      else Inl IndexError)"

text \<open>\<^verbatim>\<open>sub in s\<close> on strings: \<open>sub\<close> occurs in \<open>s\<close> as a contiguous block.\<close>

fun py_in :: "string \<Rightarrow> string \<Rightarrow> bool" where
  "py_in sub [] = (sub = [])"
| "py_in sub (c # cs) = (prefix sub (c # cs) \<or> py_in sub cs)"

text \<open>\<^verbatim>\<open>d[k]\<close> on a dict raises \<^verbatim>\<open>KeyError\<close> on a missing key; \<^verbatim>\<open>d.get(k, v)\<close> does not.\<close>

definition dict_getitem :: "(string \<times> 'v) list \<Rightarrow> string \<Rightarrow> error + 'v" where
  "dict_getitem d k = (case map_of d k of None \<Rightarrow> Inl (KeyError k) | Some v \<Rightarrow> Inr v)"

definition dict_get :: "(string \<times> 'v) list \<Rightarrow> string \<Rightarrow> 'v \<Rightarrow> 'v" where
  "dict_get d k dflt = (case map_of d k of None \<Rightarrow> dflt | Some v \<Rightarrow> v)"

text \<open>\<^verbatim>\<open>sep.join(xs)\<close>.\<close>

fun py_join :: "string \<Rightarrow> string list \<Rightarrow> string" where
  "py_join sep [] = []"
| "py_join sep [x] = x"
| "py_join sep (x # y # ys) = x @ sep @ py_join sep (y # ys)"

text \<open>A list comprehension whose body may raise stops at the first raise.\<close>

fun map_result :: "('a \<Rightarrow> error + 'b) \<Rightarrow> 'a list \<Rightarrow> error + 'b list" where
  "map_result f [] = Inr []"
| "map_result f (x # xs) =
     (case f x of
        Inl e \<Rightarrow> Inl e
      | Inr y \<Rightarrow> (case map_result f xs of Inl e \<Rightarrow> Inl e | Inr ys \<Rightarrow> Inr (y # ys)))"

definition newline :: string where
  "newline = [CHR 0x0A]"

definition dquote :: string where
  "dquote = [CHR 0x22]"

section \<open>The interview turn router\<close>

definition termination_phrase :: string where
  "termination_phrase = ''Thank you so much for your help''"

text \<open>
  \<^verbatim>\<open>num_responses\<close> counts the messages that are \<^verbatim>\<open>AIMessage\<close>s named \<open>nm\<close>.
\<close>

definition num_responses :: "message list \<Rightarrow> string \<Rightarrow> int" where
  "num_responses msgs nm =
     int (length (filter (\<lambda>m. kind m = AIMessage \<and> name m = Some nm) msgs))"

definition get_max_num_turns :: "interview_state \<Rightarrow> int" where
  "get_max_num_turns state = (case max_num_turns state of None \<Rightarrow> 2 | Some k \<Rightarrow> k)"

definition route_messages :: "interview_state \<Rightarrow> string \<Rightarrow> error + string" where
  "route_messages state nm =
     (let msgs = messages state;
          max_turns = get_max_num_turns state
      in if num_responses msgs nm \<ge> max_turns then Inr ''save_interview''
         else (case py_index msgs (- 2) of
                 Inl e \<Rightarrow> Inl e
               | Inr last_question \<Rightarrow>
                   if py_in termination_phrase (content last_question)
                   then Inr ''save_interview''
                   else Inr ''ask_question''))"

section \<open>State merge\<close>

text \<open>
  Modelled from the spec: the merge policies that \<^verbatim>\<open>models.py\<close> declares on the state
  types. \<^verbatim>\<open>messages\<close>, \<^verbatim>\<open>context\<close> and the pipeline's \<^verbatim>\<open>sections\<close> are "append"
  fields, every other field is "replace". A branch's \<^verbatim>\<open>sections\<close> patch is not a field
  of its interview state: it is the branch's contribution to the pipeline state.
\<close>

definition apply_patch :: "interview_state \<Rightarrow> interview_patch \<Rightarrow> interview_state" where
  "apply_patch st p =
     st\<lparr>messages := messages st @ (case p_messages p of None \<Rightarrow> [] | Some ms \<Rightarrow> ms),
        context_docs := context_docs st @ (case p_context p of None \<Rightarrow> [] | Some cs \<Rightarrow> cs),
        interview := (case p_interview p of None \<Rightarrow> interview st | Some i \<Rightarrow> Some i)\<rparr>"

section \<open>Interview nodes\<close>

definition generate_question :: "env \<Rightarrow> interview_state \<Rightarrow> error + interview_patch" where
  "generate_question env state =
     (case llm_invoke env
             (system_message (question_instructions env (persona (analyst state)))
              # messages state) of
        Inl e \<Rightarrow> Inl e
      | Inr question_reply \<Rightarrow>
          Inr (no_patch\<lparr>p_messages := Some [ai_message question_reply]\<rparr>))"

definition format_web_doc :: "(string \<times> string) list \<Rightarrow> error + string" where
  "format_web_doc doc =
     (case dict_getitem doc ''url'' of
        Inl e \<Rightarrow> Inl e
      | Inr url \<Rightarrow>
          (case dict_getitem doc ''content'' of
             Inl e \<Rightarrow> Inl e
           | Inr c \<Rightarrow>
               Inr (''<Document href='' @ dquote @ url @ dquote @ ''/>'' @ newline
                    @ c @ newline @ ''</Document>'')))"

definition doc_separator :: string where
  "doc_separator = newline @ newline @ ''---'' @ newline @ newline"

definition search_web :: "env \<Rightarrow> interview_state \<Rightarrow> error + interview_patch" where
  "search_web env state =
     (case llm_search_query env (system_message (search_instructions env) # messages state) of
        Inl e \<Rightarrow> Inl e
      | Inr search_query \<Rightarrow>
          (case tavily_search env search_query of
             Inl e \<Rightarrow> Inl e
           | Inr search_docs \<Rightarrow>
               (case map_result format_web_doc search_docs of
                  Inl e \<Rightarrow> Inl e
                | Inr blocks \<Rightarrow>
                    Inr (no_patch\<lparr>p_context := Some [py_join doc_separator blocks]\<rparr>))))"

definition format_wiki_doc :: "wiki_doc \<Rightarrow> error + string" where
  "format_wiki_doc doc =
     (case dict_getitem (metadata doc) ''source'' of
        Inl e \<Rightarrow> Inl e
      | Inr src \<Rightarrow>
          Inr (''<Document source='' @ dquote @ src @ dquote @ '' page='' @ dquote
               @ dict_get (metadata doc) ''page'' [] @ dquote @ ''/>'' @ newline
               @ page_content doc @ newline @ ''</Document>''))"

definition search_wikipedia :: "env \<Rightarrow> interview_state \<Rightarrow> error + interview_patch" where
  "search_wikipedia env state =
     (case llm_search_query env (system_message (search_instructions env) # messages state) of
        Inl e \<Rightarrow> Inl e
      | Inr search_query \<Rightarrow>
          (case wikipedia_load env search_query of
             Inl e \<Rightarrow> Inl e
           | Inr search_docs \<Rightarrow>
               (case map_result format_wiki_doc search_docs of
                  Inl e \<Rightarrow> Inl e
                | Inr blocks \<Rightarrow>
                    Inr (no_patch\<lparr>p_context := Some [py_join doc_separator blocks]\<rparr>))))"

definition generate_answer :: "env \<Rightarrow> interview_state \<Rightarrow> error + interview_patch" where
  "generate_answer env state =
     (case llm_invoke env
             (system_message
                (answer_instructions env (persona (analyst state)) (context_docs state))
              # messages state) of
        Inl e \<Rightarrow> Inl e
      | Inr answer \<Rightarrow>
          Inr (no_patch\<lparr>p_messages := Some [(ai_message answer)\<lparr>name := Some ''expert''\<rparr>]\<rparr>))"

definition save_interview :: "env \<Rightarrow> interview_state \<Rightarrow> interview_patch" where
  "save_interview env state =
     no_patch\<lparr>p_interview := Some (get_buffer_string env (messages state))\<rparr>"

text \<open>
  \<^verbatim>\<open>write_section\<close> reads \<^verbatim>\<open>state["interview"]\<close> (a \<^verbatim>\<open>KeyError\<close> while the key is
  absent) but builds its prompt from the context and the analyst only.
\<close>

definition write_section :: "env \<Rightarrow> interview_state \<Rightarrow> error + interview_patch" where
  "write_section env state =
     (case interview state of
        None \<Rightarrow> Inl (KeyError ''interview'')
      | Some iv \<Rightarrow>
          (case llm_invoke env
                  [system_message (section_writer_instructions env (description (analyst state))),
                   human_message (''Use this source to write your section: ''
                                  @ str_context env (context_docs state))] of
             Inl e \<Rightarrow> Inl e
           | Inr section \<Rightarrow> Inr (no_patch\<lparr>p_sections := Some [reply_content section]\<rparr>)))"

section \<open>The interview sub-graph\<close>

text \<open>
  The graph engine is LangGraph, a library outside the repository. It runs a graph in
  super-steps (the nodes that are due run together, then their patches are merged) and
  aborts a run with \<^verbatim>\<open>GraphRecursionError\<close> instead of starting a super-step beyond its
  recursion limit. The limit is 25 unless the caller configures one, and the source
  configures none. \<open>super_step limit s body\<close> is the \<open>s\<close>-th super-step of a run.
\<close>

definition recursion_limit :: nat where
  "recursion_limit = 25"

definition super_step :: "nat \<Rightarrow> nat \<Rightarrow> error + 'a \<Rightarrow> error + 'a" where
  "super_step limit s body = (if limit < s then Inl GraphRecursionError else body)"

text \<open>
  The edges of \<^verbatim>\<open>interview_builder\<close>: \<^verbatim>\<open>START\<close> to \<^verbatim>\<open>ask_question\<close>; \<^verbatim>\<open>ask_question\<close>
  to both \<^verbatim>\<open>search_web\<close> and \<^verbatim>\<open>search_wikipedia\<close>, which read the same snapshot in one
  super-step; both to \<^verbatim>\<open>answer_question\<close>, which runs once they have finished. One pass
  over these edges is an ask/search/answer cycle of three super-steps; \<open>s\<close> is the
  number of super-steps the run has taken before it.
\<close>

definition interview_cycle ::
  "nat \<Rightarrow> env \<Rightarrow> nat \<Rightarrow> interview_state \<Rightarrow> error + interview_state" where
  "interview_cycle limit env s st =
     super_step limit (s + 1)
       (case generate_question env st of
          Inl e \<Rightarrow> Inl e
        | Inr pq \<Rightarrow>
            (let st1 = apply_patch st pq in
             super_step limit (s + 2)
               (case search_web env st1 of
                  Inl e \<Rightarrow> Inl e
                | Inr pw \<Rightarrow>
                    (case search_wikipedia env st1 of
                       Inl e \<Rightarrow> Inl e
                     | Inr pk \<Rightarrow>
                         (let st2 = apply_patch (apply_patch st1 pw) pk in
                          super_step limit (s + 3)
                            (case generate_answer env st2 of
                               Inl e \<Rightarrow> Inl e
                             | Inr pa \<Rightarrow> Inr (apply_patch st2 pa)))))))"

text \<open>
  The conditional edge after \<^verbatim>\<open>answer_question\<close>: \<^verbatim>\<open>route_messages\<close>, called with the
  state only (so \<^verbatim>\<open>name\<close> is \<^verbatim>\<open>"expert"\<close>), goes back to \<^verbatim>\<open>ask_question\<close> or on to
  \<^verbatim>\<open>save_interview\<close>. The loop counts the cycles it has run in \<open>n\<close>; it has then taken
  \<open>3 * n\<close> super-steps.
\<close>

function conduct_loop ::
  "nat \<Rightarrow> env \<Rightarrow> nat \<Rightarrow> interview_state \<Rightarrow> error + (nat \<times> interview_state)" where
  "conduct_loop limit env n st =
     (case interview_cycle limit env (3 * n) st of
        Inl e \<Rightarrow> Inl e
      | Inr st' \<Rightarrow>
          (case route_messages st' ''expert'' of
             Inl e \<Rightarrow> Inl e
           | Inr nxt \<Rightarrow>
               if nxt = ''ask_question'' then conduct_loop limit env (Suc n) st'
               else Inr (Suc n, st')))"
  by pat_completeness auto
termination
proof (relation "measure (\<lambda>(limit, env, n, st).
         nat (get_max_num_turns st - num_responses (messages st) ''expert''))")
  show "wf (measure (\<lambda>(limit, env, n, st).
         nat (get_max_num_turns st - num_responses (messages st) ''expert'')))"
    by simp
next
  fix limit :: nat and env :: env and n :: nat and st st' :: interview_state and nxt :: string
  assume cyc: "interview_cycle limit env (3 * n) st = Inr st'"
    and rt: "route_messages st' ''expert'' = Inr nxt"
    and ask: "nxt = ''ask_question''"
  from cyc obtain ms a where
    st': "messages st' = messages st @ ms @ [(ai_message a)\<lparr>name := Some ''expert''\<rparr>]"
    and mx: "max_num_turns st' = max_num_turns st"
    by (auto simp: interview_cycle_def super_step_def generate_question_def search_web_def
        search_wikipedia_def generate_answer_def apply_patch_def no_patch_def Let_def
        split: sum.splits if_splits)
  have grow: "num_responses (messages st) ''expert'' < num_responses (messages st') ''expert''"
    by (simp add: st' num_responses_def ai_message_def)
  have below: "num_responses (messages st') ''expert'' < get_max_num_turns st'"
    using rt ask by (auto simp: route_messages_def Let_def split: if_splits)
  have "get_max_num_turns st' = get_max_num_turns st"
    by (simp add: get_max_num_turns_def mx)
  with grow below
  show "((limit, env, Suc n, st'), (limit, env, n, st)) \<in> measure (\<lambda>(limit, env, n, st).
         nat (get_max_num_turns st - num_responses (messages st) ''expert''))"
    by simp
qed

declare conduct_loop.simps [simp del]

text \<open>
  \<^verbatim>\<open>save_interview\<close> to \<^verbatim>\<open>write_section\<close> to \<^verbatim>\<open>END\<close>, a super-step each. The result is
  the number of cycles run, the final interview state and the branch's \<^verbatim>\<open>sections\<close>
  contribution.
\<close>

definition conduct_interview_within ::
  "nat \<Rightarrow> env \<Rightarrow> interview_state \<Rightarrow> error + (nat \<times> interview_state \<times> string list)" where
  "conduct_interview_within limit env st =
     (case conduct_loop limit env 0 st of
        Inl e \<Rightarrow> Inl e
      | Inr (n, st1) \<Rightarrow>
          super_step limit (3 * n + 1)
            (let st2 = apply_patch st1 (save_interview env st1) in
             super_step limit (3 * n + 2)
               (case write_section env st2 of
                  Inl e \<Rightarrow> Inl e
                | Inr pw \<Rightarrow>
                    Inr (n, apply_patch st2 pw,
                         (case p_sections pw of None \<Rightarrow> [] | Some ss \<Rightarrow> ss)))))"

definition conduct_interview ::
  "env \<Rightarrow> interview_state \<Rightarrow> error + (nat \<times> interview_state \<times> string list)" where
  "conduct_interview env st = conduct_interview_within recursion_limit env st"

section \<open>Pipeline nodes\<close>

text \<open>
  \<^verbatim>\<open>format_market_odds\<close> is a dict comprehension over \<^verbatim>\<open>zip(outcomes, outcome_prices)\<close>.
  A Python dict keeps insertion order, and storing under a key already present
  replaces the value in place: that is \<open>AList.update\<close> on an association list.
\<close>

definition format_market_odds :: "market \<Rightarrow> (string \<times> rat) list" where
  "format_market_odds m =
     fold (\<lambda>(outcome_label, price). AList.update outcome_label price)
          (zip (outcomes m) (outcome_prices m)) []"

definition create_analysts :: "env \<Rightarrow> research_state \<Rightarrow> error + research_patch" where
  "create_analysts env state =
     (let m = market state;
          market_odds = format_market_odds m
      in case llm_perspectives env
                [system_message (analyst_instructions env m market_odds (max_analysts state)),
                 human_message ''Generate the set of analysts.''] of
           Inl e \<Rightarrow> Inl e
         | Inr perspectives \<Rightarrow>
             Inr \<lparr>p_analysts = Some perspectives, p_recommendation = None\<rparr>)"

text \<open>
  A \<^verbatim>\<open>Send(node, arg)\<close> directive: the node to start and the dict it starts on, which
  here has the keys \<^verbatim>\<open>analyst\<close> and \<^verbatim>\<open>messages\<close> only.
\<close>

record interview_input =
  in_analyst :: analyst
  in_messages :: "message list"

record send =
  send_node :: string
  send_arg :: interview_input

definition initiate_all_interviews :: "research_state \<Rightarrow> send list" where
  "initiate_all_interviews state =
     map (\<lambda>a. \<lparr>send_node = ''conduct_interview'',
                send_arg = \<lparr>in_analyst = a,
                            in_messages =
                              [human_message
                                 (''So you said you were analyzing the market question: ''
                                  @ question (market state) @ ''?'')]\<rparr>\<rparr>)
         (analysts state)"

text \<open>
  Modelled from the spec: the graph engine's fan-out and join, which are the LangGraph
  library's and not in the repository. Each directive starts one branch on a state of
  its own, holding what the directive carries and nothing else (no context, no
  transcript, \<^verbatim>\<open>max_num_turns\<close> absent); when every branch has finished, each branch's
  \<^verbatim>\<open>sections\<close> contribution is appended to the pipeline's \<^verbatim>\<open>sections\<close>; a failing branch
  aborts the run.
\<close>

definition start_interview :: "interview_input \<Rightarrow> interview_state" where
  "start_interview inp =
     \<lparr>analyst = in_analyst inp, messages = in_messages inp, context_docs = [],
      interview = None, max_num_turns = None\<rparr>"

fun run_branches :: "env \<Rightarrow> send list \<Rightarrow> error + string list list" where
  "run_branches env [] = Inr []"
| "run_branches env (s # ss) =
     (case conduct_interview env (start_interview (send_arg s)) of
        Inl e \<Rightarrow> Inl e
      | Inr (n, st, secs) \<Rightarrow>
          (case run_branches env ss of
             Inl e \<Rightarrow> Inl e
           | Inr rest \<Rightarrow> Inr (secs # rest)))"

definition conduct_interviews :: "env \<Rightarrow> research_state \<Rightarrow> error + research_state" where
  "conduct_interviews env state =
     (case run_branches env (initiate_all_interviews state) of
        Inl e \<Rightarrow> Inl e
      | Inr contributions \<Rightarrow> Inr (state\<lparr>sections := sections state @ concat contributions\<rparr>))"

definition write_recommendation :: "env \<Rightarrow> research_state \<Rightarrow> error + research_patch" where
  "write_recommendation env state =
     (let secs = sections state;
          m = market state;
          market_odds = format_market_odds m;
          formatted_str_sections = py_join (newline @ newline) secs
      in case llm_recommendation env
                [system_message (recommendation_instructions env m market_odds formatted_str_sections),
                 human_message ''Create a recommendation based upon these memos.''] of
           Inl e \<Rightarrow> Inl e
         | Inr r \<Rightarrow> Inr \<lparr>p_analysts = None, p_recommendation = Some r\<rparr>)"

section \<open>Conditions on the collaborators\<close>

text \<open>
  A condition that theorems below assume of the environment; it describes the
  collaborators, not the program. \<open>collaborators_ok\<close>: every call of the language
  model and of the retrieval services returns, and every retrieved document has the
  keys the formatting code reads.
\<close>

definition collaborators_ok :: "env \<Rightarrow> bool" where
  "collaborators_ok env \<longleftrightarrow>
     (\<forall>ms. \<not> isl (llm_invoke env ms))
     \<and> (\<forall>ms. \<not> isl (llm_search_query env ms))
     \<and> (\<forall>q. case tavily_search env q of
               Inl e \<Rightarrow> False
             | Inr docs \<Rightarrow> list_all (\<lambda>d. \<not> isl (format_web_doc d)) docs)
     \<and> (\<forall>q. case wikipedia_load env q of
               Inl e \<Rightarrow> False
             | Inr docs \<Rightarrow> list_all (\<lambda>d. \<not> isl (format_wiki_doc d)) docs)"

text \<open>
  The two messages one cycle appends, from the model's reply to the question prompt and
  its reply to the answer prompt: the asker's turn, and the answer named \<^verbatim>\<open>expert\<close>. A
  run's transcript is its starting history followed by the messages of its cycles.
\<close>

definition cycle_messages :: "reply \<times> reply \<Rightarrow> message list" where
  "cycle_messages qa =
     [ai_message (fst qa), (ai_message (snd qa))\<lparr>name := Some ''expert''\<rparr>]"

definition transcript :: "message list \<Rightarrow> (reply \<times> reply) list \<Rightarrow> message list" where
  "transcript history qas = history @ concat (map cycle_messages qas)"

section \<open>Example inputs\<close>

text \<open>
  Concrete inputs for the witnesses and counterexamples: a collaborator environment
  that always answers, one whose model always thanks, the spec's example market and a
  variant with one price missing, and interview states before the first cycle.
\<close>

definition example_analyst :: analyst where
  "example_analyst =
     \<lparr>analyst_name = ''Ada'', description = ''Polling trends'', persona = ''Ada, pollster''\<rparr>"

definition second_analyst :: analyst where
  "second_analyst =
     \<lparr>analyst_name = ''Bo'', description = ''Legal calendar'', persona = ''Bo, lawyer''\<rparr>"

definition example_env :: env where
  "example_env =
     \<lparr>llm_invoke = (\<lambda>ms. Inr \<lparr>reply_content = ''Noted.'', reply_name = None\<rparr>),
      llm_search_query = (\<lambda>ms. Inr ''X odds''),
      llm_perspectives = (\<lambda>ms. Inr [example_analyst, second_analyst]),
      llm_recommendation =
        (\<lambda>ms. Inr \<lparr>outcome = ''Yes'', conviction = 7 / 10, reasoning = ''Memos agree.''\<rparr>),
      tavily_search = (\<lambda>q. Inr [[(''url'', ''http://a''), (''content'', ''A says yes.'')]]),
      wikipedia_load =
        (\<lambda>q. Inr [\<lparr>metadata = [(''source'', ''wiki/X'')], page_content = ''X is pending.''\<rparr>]),
      get_buffer_string = (\<lambda>ms. concat (map content ms)),
      question_instructions = (\<lambda>goals. ''Interview an expert. Goals: '' @ goals),
      answer_instructions = (\<lambda>goals docs. ''Answer from: '' @ concat docs),
      section_writer_instructions = (\<lambda>focus. ''Write a section on '' @ focus),
      search_instructions = ''Write a search query.'',
      analyst_instructions = (\<lambda>m odds k. ''Create analysts for '' @ question m),
      recommendation_instructions = (\<lambda>m odds memos. ''Recommend from: '' @ memos),
      str_context = concat\<rparr>"

definition thankful_env :: env where
  "thankful_env =
     example_env\<lparr>llm_invoke :=
       (\<lambda>ms. Inr \<lparr>reply_content = ''Thank you so much for your help!'', reply_name = None\<rparr>)\<rparr>"

definition opening_message :: message where
  "opening_message =
     human_message ''So you said you were analyzing the market question: Will X happen??''"

definition example_market :: market where
  "example_market =
     \<lparr>question = ''Will X happen?'', market_description = ''Resolves Yes if X happens.'',
      outcomes = [''Yes'', ''No''], outcome_prices = [62 / 100, 38 / 100],
      end_date = ''2025-12-31'', volume = 1000\<rparr>"

definition mismatched_market :: market where
  "mismatched_market = example_market\<lparr>outcome_prices := [62 / 100]\<rparr>"

definition pipeline_state :: "market \<Rightarrow> analyst list \<Rightarrow> string list \<Rightarrow> research_state" where
  "pipeline_state m team memos =
     \<lparr>market = m, max_analysts = 2, analysts = team, sections = memos,
      recommendation = None\<rparr>"

definition cold_start_state :: interview_state where
  "cold_start_state =
     \<lparr>analyst = example_analyst, messages = [], context_docs = [],
      interview = None, max_num_turns = None\<rparr>"

definition one_message_state :: interview_state where
  "one_message_state =
     \<lparr>analyst = example_analyst, messages = [opening_message], context_docs = [],
      interview = None, max_num_turns = Some 2\<rparr>"

definition after_first_answer :: interview_state where
  "after_first_answer =
     \<lparr>analyst = example_analyst,
      messages = [opening_message,
                  \<lparr>kind = AIMessage, content = ''Hello, I am Ada. What moves X?'', name = None\<rparr>,
                  \<lparr>kind = AIMessage, content = ''Turnout [1].'', name = Some ''expert''\<rparr>],
      context_docs = [], interview = None, max_num_turns = None\<rparr>"

definition seeded_state :: "int option \<Rightarrow> interview_state" where
  "seeded_state k =
     \<lparr>analyst = example_analyst, messages = [opening_message], context_docs = [],
      interview = None, max_num_turns = k\<rparr>"

section \<open>Properties of the primitives\<close>

lemma py_in_sublist: "py_in sub s \<longleftrightarrow> sublist sub s"
  by (induction s) (auto simp: sublist_Cons_right)

lemma py_index_minus2:
  "py_index xs (- 2) =
     (if 2 \<le> length xs then Inr (xs ! (length xs - 2)) else Inl IndexError)"
proof (cases "2 \<le> length xs")
  case True
  then have "nat (int (length xs) + (- 2)) = length xs - 2" by linarith
  with True show ?thesis by (simp add: py_index_def)
next
  case False
  then show ?thesis by (simp add: py_index_def)
qed

section \<open>The router\<close>

lemma route_messages_cases:
  "route_messages st nm =
     (if get_max_num_turns st \<le> num_responses (messages st) nm then Inr ''save_interview''
      else if length (messages st) < 2 then Inl IndexError
      else if sublist termination_phrase (content (messages st ! (length (messages st) - 2)))
        then Inr ''save_interview''
      else Inr ''ask_question'')"
  by (simp add: route_messages_def Let_def py_index_minus2 py_in_sublist)

text \<open>
  Claim C1, as stated, fails on a state with no messages and the default turn limit: no
  expert turn has been counted, there is no second-to-last message to contain the
  phrase, and the router raises \<^verbatim>\<open>IndexError\<close> instead of returning \<^verbatim>\<open>ask_question\<close>.
\<close>

theorem route_messages_no_history_counterexample:
  "num_responses (messages cold_start_state) ''expert'' < get_max_num_turns cold_start_state
   \<and> route_messages cold_start_state ''expert'' = Inl IndexError
   \<and> route_messages cold_start_state ''expert'' \<noteq> Inr ''ask_question''"
  by (simp add: route_messages_def cold_start_state_def num_responses_def
      get_max_num_turns_def py_index_def Let_def)

text \<open>
  Claim C1 (amended): the router returns \<^verbatim>\<open>save_interview\<close> when the number of
  \<^verbatim>\<open>AIMessage\<close>s named \<^verbatim>\<open>expert\<close> has reached the turn limit (2 when the state has
  none); otherwise, on a history of at least two messages, it returns
  \<^verbatim>\<open>save_interview\<close> when the second-to-last message contains the termination phrase
  and \<^verbatim>\<open>ask_question\<close> when it does not; otherwise (fewer than two messages) it raises
  \<^verbatim>\<open>IndexError\<close>.
\<close>

theorem route_messages_spec:
  "route_messages st ''expert'' =
     (if get_max_num_turns st \<le> num_responses (messages st) ''expert''
      then Inr ''save_interview''
      else if length (messages st) < 2 then Inl IndexError
      else if sublist termination_phrase (content (messages st ! (length (messages st) - 2)))
        then Inr ''save_interview''
      else Inr ''ask_question'')"
  by (rule route_messages_cases)

theorem route_messages_spec_witness:
  "route_messages after_first_answer ''expert'' = Inr ''ask_question''"
  using route_messages_spec [of after_first_answer]
  by (simp add: after_first_answer_def opening_message_def human_message_def
      num_responses_def get_max_num_turns_def termination_phrase_def
      py_in_sublist [symmetric])

text \<open>
  Claim C6, as stated, fails on a state holding the opening message only, with a turn
  limit of 2: the router raises \<^verbatim>\<open>IndexError\<close> at \<^verbatim>\<open>messages[-2]\<close>; it does not return
  \<^verbatim>\<open>ask_question\<close>.
\<close>

theorem route_messages_one_message_counterexample:
  "length (messages one_message_state) < 2
   \<and> num_responses (messages one_message_state) ''expert'' < get_max_num_turns one_message_state
   \<and> route_messages one_message_state ''expert'' = Inl IndexError
   \<and> route_messages one_message_state ''expert'' \<noteq> Inr ''ask_question''"
  by (simp add: route_messages_def one_message_state_def num_responses_def
      opening_message_def human_message_def get_max_num_turns_def py_index_def Let_def)

text \<open>
  Claim C6 (amended): on every state with fewer than two messages and an expert-turn
  count below the turn limit, the access to the second-to-last message faults: the
  router raises \<^verbatim>\<open>IndexError\<close>.
\<close>

theorem route_messages_short_history_faults:
  assumes "length (messages st) < 2"
    and "num_responses (messages st) ''expert'' < get_max_num_turns st"
  shows "route_messages st ''expert'' = Inl IndexError"
  using assms by (simp add: route_messages_cases)

theorem route_messages_short_history_faults_witness:
  "length (messages (cold_start_state\<lparr>max_num_turns := Some 3\<rparr>)) < 2
   \<and> num_responses (messages (cold_start_state\<lparr>max_num_turns := Some 3\<rparr>)) ''expert''
       < get_max_num_turns (cold_start_state\<lparr>max_num_turns := Some 3\<rparr>)
   \<and> route_messages (cold_start_state\<lparr>max_num_turns := Some 3\<rparr>) ''expert'' = Inl IndexError"
proof -
  let ?st = "cold_start_state\<lparr>max_num_turns := Some 3\<rparr>"
  have len: "length (messages ?st) < 2"
    by (simp add: cold_start_state_def)
  have cnt: "num_responses (messages ?st) ''expert'' < get_max_num_turns ?st"
    by (simp add: cold_start_state_def num_responses_def get_max_num_turns_def)
  from len cnt route_messages_short_history_faults [OF len cnt] show ?thesis by simp
qed

section \<open>The interview loop\<close>

text \<open>
  One cycle appends exactly two messages, the question and then the answer named
  \<^verbatim>\<open>expert\<close>, and leaves the analyst, the turn limit and the transcript field alone; it
  takes three super-steps.
\<close>

lemma interview_cycle_messages:
  assumes "interview_cycle limit env s st = Inr st'"
  shows "\<exists>q a. llm_invoke env (system_message (question_instructions env (persona (analyst st)))
                   # messages st) = Inr q
          \<and> messages st' = messages st
                @ [ai_message q, (ai_message a)\<lparr>name := Some ''expert''\<rparr>]
          \<and> max_num_turns st' = max_num_turns st
          \<and> analyst st' = analyst st
          \<and> interview st' = interview st
          \<and> s + 3 \<le> limit"
  using assms
  by (auto simp: interview_cycle_def super_step_def generate_question_def search_web_def
        search_wikipedia_def generate_answer_def apply_patch_def no_patch_def Let_def
        split: sum.splits if_splits)

lemma interview_cycle_limit:
  assumes "interview_cycle limit env s st = Inr st'"
  shows "interview_cycle limit' env s st
           = (if s + 3 \<le> limit' then Inr st' else Inl GraphRecursionError)"
  using assms
  by (auto simp: interview_cycle_def super_step_def Let_def split: sum.splits if_splits)

lemma num_responses_nonneg: "0 \<le> num_responses xs nm"
  by (simp add: num_responses_def)

lemma interview_cycle_grows:
  assumes "interview_cycle limit env s st = Inr st'"
  shows "num_responses (messages st) ''expert'' < num_responses (messages st') ''expert''"
    and "get_max_num_turns st' = get_max_num_turns st"
    and "2 \<le> length (messages st')"
proof -
  from interview_cycle_messages [OF assms] obtain q a where
    m: "messages st' = messages st @ [ai_message q, (ai_message a)\<lparr>name := Some ''expert''\<rparr>]"
    and k: "max_num_turns st' = max_num_turns st" by blast
  show "num_responses (messages st) ''expert'' < num_responses (messages st') ''expert''"
    by (simp add: m num_responses_def ai_message_def)
  show "get_max_num_turns st' = get_max_num_turns st"
    by (simp add: get_max_num_turns_def k)
  show "2 \<le> length (messages st')" by (simp add: m)
qed

lemma route_messages_range:
  "route_messages st nm = Inr r \<Longrightarrow> r = ''save_interview'' \<or> r = ''ask_question''"
  by (auto simp: route_messages_cases split: if_splits)

text \<open>
  After a cycle the router stops the loop when the expert count has reached the limit
  or the question just asked contains the termination phrase, and continues otherwise.
\<close>

lemma route_after_cycle:
  assumes cyc: "interview_cycle limit env s st = Inr st1"
    and q: "llm_invoke env (system_message (question_instructions env (persona (analyst st)))
              # messages st) = Inr q"
  shows "route_messages st1 ''expert'' =
           Inr (if get_max_num_turns st \<le> num_responses (messages st1) ''expert''
                   \<or> sublist termination_phrase (reply_content q)
                then ''save_interview'' else ''ask_question'')"
    and "num_responses (messages st1) ''expert''
           = num_responses (messages st) ''expert'' + 1
             + (if reply_name q = Some ''expert'' then 1 else 0)"
proof -
  from interview_cycle_messages [OF cyc] q obtain a where
    m: "messages st1 = messages st @ [ai_message q, (ai_message a)\<lparr>name := Some ''expert''\<rparr>]"
    by auto
  have "messages st1 ! (length (messages st1) - 2) = ai_message q"
    by (simp add: m nth_append)
  then have "content (messages st1 ! (length (messages st1) - 2)) = reply_content q"
    by (simp add: ai_message_def)
  moreover have "\<not> length (messages st1) < 2" by (simp add: m)
  ultimately show "route_messages st1 ''expert'' =
           Inr (if get_max_num_turns st \<le> num_responses (messages st1) ''expert''
                   \<or> sublist termination_phrase (reply_content q)
                then ''save_interview'' else ''ask_question'')"
    by (simp add: route_messages_cases interview_cycle_grows(2) [OF cyc])
  show "num_responses (messages st1) ''expert''
           = num_responses (messages st) ''expert'' + 1
             + (if reply_name q = Some ''expert'' then 1 else 0)"
    by (simp add: m num_responses_def ai_message_def)
qed

text \<open>
  The number of cycles: at least one, since the router is consulted only after an
  answer, and at most the turns still allowed when more than one is. A loop that
  returns has stayed within the step limit.
\<close>

lemma conduct_loop_bound:
  "conduct_loop limit env n st = Inr (m, st') \<Longrightarrow>
     n < m
     \<and> int m - int n \<le> max 1 (get_max_num_turns st - num_responses (messages st) ''expert'')
     \<and> 3 * m \<le> limit"
proof (induction limit env n st arbitrary: m st' rule: conduct_loop.induct)
  case (1 limit env n st)
  from "1.prems" obtain st1 nxt where
    cyc: "interview_cycle limit env (3 * n) st = Inr st1"
    and rt: "route_messages st1 ''expert'' = Inr nxt"
    by (auto simp: conduct_loop.simps [of limit env n st] split: sum.splits)
  note g = interview_cycle_grows [OF cyc]
  from interview_cycle_messages [OF cyc] have lim: "3 * n + 3 \<le> limit" by blast
  show ?case
  proof (cases "nxt = ''ask_question''")
    case True
    with "1.prems" cyc rt have "conduct_loop limit env (Suc n) st1 = Inr (m, st')"
      by (simp add: conduct_loop.simps [of limit env n st])
    from "1.IH" [OF cyc rt True this]
    have ih: "Suc n < m"
      "int m - int (Suc n) \<le> max 1 (get_max_num_turns st1 - num_responses (messages st1) ''expert'')"
      "3 * m \<le> limit"
      by simp_all
    from rt True have "num_responses (messages st1) ''expert'' < get_max_num_turns st1"
      by (auto simp: route_messages_cases split: if_splits)
    with ih g show ?thesis by simp
  next
    case False
    with "1.prems" cyc rt have "m = Suc n"
      by (simp add: conduct_loop.simps [of limit env n st])
    with lim show ?thesis by simp
  qed
qed

lemma conduct_loop_one_cycle:
  assumes "conduct_loop limit env n st = Inr (Suc n, st')"
  shows "interview_cycle limit env (3 * n) st = Inr st'"
proof -
  from assms obtain st1 nxt where
    cyc: "interview_cycle limit env (3 * n) st = Inr st1"
    and rt: "route_messages st1 ''expert'' = Inr nxt"
    by (auto simp: conduct_loop.simps [of limit env n st] split: sum.splits)
  show ?thesis
  proof (cases "nxt = ''ask_question''")
    case True
    with assms cyc rt have "conduct_loop limit env (Suc n) st1 = Inr (Suc n, st')"
      by (simp add: conduct_loop.simps [of limit env n st])
    from conduct_loop_bound [OF this] show ?thesis by simp
  next
    case False
    with assms cyc rt show ?thesis by (simp add: conduct_loop.simps [of limit env n st])
  qed
qed

text \<open>
  The step limit changes nothing but whether the run is cut short: a loop that returns
  after \<open>m\<close> cycles under one limit returns the same under every limit of at least
  \<open>3 * m\<close> super-steps, and is aborted under every smaller one.
\<close>

lemma conduct_loop_limit:
  "conduct_loop limit env n st = Inr (m, st') \<Longrightarrow>
     conduct_loop limit' env n st
       = (if 3 * m \<le> limit' then Inr (m, st') else Inl GraphRecursionError)"
proof (induction limit env n st arbitrary: m st' rule: conduct_loop.induct)
  case (1 limit env n st)
  from "1.prems" obtain st1 nxt where
    cyc: "interview_cycle limit env (3 * n) st = Inr st1"
    and rt: "route_messages st1 ''expert'' = Inr nxt"
    by (auto simp: conduct_loop.simps [of limit env n st] split: sum.splits)
  note cyc' = interview_cycle_limit [OF cyc, of limit']
  show ?case
  proof (cases "nxt = ''ask_question''")
    case True
    with "1.prems" cyc rt have run: "conduct_loop limit env (Suc n) st1 = Inr (m, st')"
      by (simp add: conduct_loop.simps [of limit env n st])
    from conduct_loop_bound [OF run] have "Suc n < m" by simp
    with "1.IH" [OF cyc rt True run] cyc' rt True show ?thesis
      by (simp add: conduct_loop.simps [of limit' env n st])
  next
    case False
    with "1.prems" cyc rt have "m = Suc n" "st' = st1"
      by (simp_all add: conduct_loop.simps [of limit env n st])
    with cyc' rt False show ?thesis
      by (simp add: conduct_loop.simps [of limit' env n st])
  qed
qed

text \<open>
  The transcript of a loop that returns: its cycles' questions are the model's replies
  to the question prompt on the history so far; no question but the last contains the
  termination phrase; and if the loop stopped before the turns allowed were used up,
  the last question contains the phrase (or some question was itself named
  \<^verbatim>\<open>expert\<close> and counted as a turn).
\<close>

lemma transcript_Nil: "transcript h [] = h"
  by (simp add: transcript_def)

lemma transcript_Cons: "transcript h (qa # qas) = transcript (h @ cycle_messages qa) qas"
  by (simp add: transcript_def)

lemma conduct_loop_transcript:
  "conduct_loop limit env n st = Inr (m, st') \<Longrightarrow>
     \<exists>qas. length qas = m - n
       \<and> messages st' = transcript (messages st) qas
       \<and> analyst st' = analyst st
       \<and> (\<forall>j < length qas.
             llm_invoke env (system_message (question_instructions env (persona (analyst st)))
                             # transcript (messages st) (take j qas)) = Inr (fst (qas ! j)))
       \<and> (\<forall>q \<in> fst ` set (butlast qas). \<not> sublist termination_phrase (reply_content q))
       \<and> (int (m - n) < max 1 (get_max_num_turns st - num_responses (messages st) ''expert'')
            \<longrightarrow> sublist termination_phrase (reply_content (fst (last qas)))
                \<or> (\<exists>q \<in> fst ` set qas. reply_name q = Some ''expert''))"
proof (induction limit env n st arbitrary: m st' rule: conduct_loop.induct)
  case (1 limit env n st)
  let ?prompt = "system_message (question_instructions env (persona (analyst st)))"
  let ?k = "get_max_num_turns st"
  let ?c = "num_responses (messages st) ''expert''"
  from "1.prems" obtain st1 nxt where
    cyc: "interview_cycle limit env (3 * n) st = Inr st1"
    and rt: "route_messages st1 ''expert'' = Inr nxt"
    by (auto simp: conduct_loop.simps [of limit env n st] split: sum.splits)
  from interview_cycle_messages [OF cyc] obtain q a where
    q: "llm_invoke env (?prompt # messages st) = Inr q"
    and m1: "messages st1 = messages st @ cycle_messages (q, a)"
    and an: "analyst st1 = analyst st"
    by (auto simp: cycle_messages_def)
  note r = route_after_cycle [OF cyc q]
  note g = interview_cycle_grows [OF cyc]
  show ?case
  proof (cases "nxt = ''ask_question''")
    case False
    with "1.prems" cyc rt have m: "m = Suc n" and st': "st' = st1"
      by (simp_all add: conduct_loop.simps [of limit env n st])
    from rt False r(1)
    have stop: "?k \<le> num_responses (messages st1) ''expert''
                 \<or> sublist termination_phrase (reply_content q)"
      by (auto split: if_splits)
    have early: "int (m - n) < max 1 (?k - ?c)
            \<longrightarrow> sublist termination_phrase (reply_content (fst (last [(q, a)])))
                \<or> (\<exists>q' \<in> fst ` set [(q, a)]. reply_name q' = Some ''expert'')"
      using stop r(2) m by (auto split: if_splits)
    have "length [(q, a)] = m - n" using m by simp
    moreover have "messages st' = transcript (messages st) [(q, a)]"
      by (simp add: st' m1 transcript_def)
    moreover have "analyst st' = analyst st" by (simp add: st' an)
    moreover have "\<forall>j < length [(q, a)].
             llm_invoke env (?prompt # transcript (messages st) (take j [(q, a)]))
               = Inr (fst ([(q, a)] ! j))"
      by (simp add: q transcript_Nil)
    moreover have "\<forall>q' \<in> fst ` set (butlast [(q, a)]).
             \<not> sublist termination_phrase (reply_content q')"
      by simp
    ultimately show ?thesis using early by blast
  next
    case True
    with "1.prems" cyc rt have run: "conduct_loop limit env (Suc n) st1 = Inr (m, st')"
      by (simp add: conduct_loop.simps [of limit env n st])
    from conduct_loop_bound [OF run] have lt: "Suc n < m" by simp
    from "1.IH" [OF cyc rt True run] obtain qas where
      len: "length qas = m - Suc n"
      and tr: "messages st' = transcript (messages st1) qas"
      and an': "analyst st' = analyst st1"
      and asked: "\<forall>j < length qas.
             llm_invoke env (system_message (question_instructions env (persona (analyst st1)))
                             # transcript (messages st1) (take j qas)) = Inr (fst (qas ! j))"
      and quiet: "\<forall>q' \<in> fst ` set (butlast qas).
             \<not> sublist termination_phrase (reply_content q')"
      and early: "int (m - Suc n)
             < max 1 (get_max_num_turns st1 - num_responses (messages st1) ''expert'')
            \<longrightarrow> sublist termination_phrase (reply_content (fst (last qas)))
                \<or> (\<exists>q' \<in> fst ` set qas. reply_name q' = Some ''expert'')"
      by blast
    from len lt have ne: "qas \<noteq> []" by auto
    from rt True r(1)
    have go: "num_responses (messages st1) ''expert'' < ?k"
      and nq: "\<not> sublist termination_phrase (reply_content q)"
      by (auto split: if_splits)
    let ?qas = "(q, a) # qas"
    have l: "length ?qas = m - n" using len lt by simp
    have t: "messages st' = transcript (messages st) ?qas"
      by (simp add: tr m1 transcript_Cons)
    have a: "analyst st' = analyst st" by (simp add: an' an)
    have asked': "\<forall>j < length ?qas.
             llm_invoke env (?prompt # transcript (messages st) (take j ?qas))
               = Inr (fst (?qas ! j))"
    proof (intro allI impI)
      fix j assume j: "j < length ?qas"
      show "llm_invoke env (?prompt # transcript (messages st) (take j ?qas))
               = Inr (fst (?qas ! j))"
      proof (cases j)
        case 0
        then show ?thesis by (simp add: q transcript_Nil)
      next
        case (Suc i)
        with j have "i < length qas" by simp
        with asked have "llm_invoke env
            (system_message (question_instructions env (persona (analyst st1)))
             # transcript (messages st1) (take i qas)) = Inr (fst (qas ! i))"
          by blast
        then show ?thesis by (simp add: Suc an m1 transcript_Cons)
      qed
    qed
    have quiet': "\<forall>q' \<in> fst ` set (butlast ?qas).
             \<not> sublist termination_phrase (reply_content q')"
      using quiet nq ne by auto
    have early': "int (m - n) < max 1 (?k - ?c)
            \<longrightarrow> sublist termination_phrase (reply_content (fst (last ?qas)))
                \<or> (\<exists>q' \<in> fst ` set ?qas. reply_name q' = Some ''expert'')"
    proof
      assume less: "int (m - n) < max 1 (?k - ?c)"
      show "sublist termination_phrase (reply_content (fst (last ?qas)))
                \<or> (\<exists>q' \<in> fst ` set ?qas. reply_name q' = Some ''expert'')"
      proof (cases "reply_name q = Some ''expert''")
        case True
        then show ?thesis by auto
      next
        case False
        with r(2) have "num_responses (messages st1) ''expert'' = ?c + 1" by simp
        with less go lt g(2)
        have "int (m - Suc n)
                < max 1 (get_max_num_turns st1 - num_responses (messages st1) ''expert'')"
          by simp
        with early ne show ?thesis by auto
      qed
    qed
    from l t a asked' quiet' early' show ?thesis by blast
  qed
qed

text \<open>
  When the collaborators return and the step limit is high enough, so does the loop.
\<close>

lemma not_isl_iff: "\<not> isl x \<longleftrightarrow> (\<exists>r. x = Inr r)"
  by (cases x) auto

lemma map_result_ok:
  "list_all (\<lambda>x. \<not> isl (f x)) xs \<Longrightarrow> \<exists>ys. map_result f xs = Inr ys"
  by (induction xs) (auto simp: not_isl_iff)

lemma collaborators_ok_llm:
  "collaborators_ok env \<Longrightarrow> \<exists>r. llm_invoke env ms = Inr r"
  by (simp add: collaborators_ok_def not_isl_iff)

lemma interview_cycle_ok:
  assumes "collaborators_ok env" and lim: "s + 3 \<le> limit"
  shows "\<exists>st1. interview_cycle limit env s st = Inr st1"
proof -
  from assms have llm: "\<exists>r. llm_invoke env ms = Inr r" for ms
    by (simp add: collaborators_ok_def not_isl_iff)
  from assms have sq: "\<exists>q. llm_search_query env ms = Inr q" for ms
    by (simp add: collaborators_ok_def not_isl_iff)
  have web: "\<exists>docs. tavily_search env q = Inr docs
               \<and> list_all (\<lambda>d. \<not> isl (format_web_doc d)) docs" for q
  proof -
    from assms have "case tavily_search env q of Inl e \<Rightarrow> False
        | Inr docs \<Rightarrow> list_all (\<lambda>d. \<not> isl (format_web_doc d)) docs"
      by (simp add: collaborators_ok_def)
    then show ?thesis by (cases "tavily_search env q") simp_all
  qed
  have wiki: "\<exists>docs. wikipedia_load env q = Inr docs
               \<and> list_all (\<lambda>d. \<not> isl (format_wiki_doc d)) docs" for q
  proof -
    from assms have "case wikipedia_load env q of Inl e \<Rightarrow> False
        | Inr docs \<Rightarrow> list_all (\<lambda>d. \<not> isl (format_wiki_doc d)) docs"
      by (simp add: collaborators_ok_def)
    then show ?thesis by (cases "wikipedia_load env q") simp_all
  qed
  have gq: "\<exists>p. generate_question env s = Inr p" for s
    using llm [of "system_message (question_instructions env (persona (analyst s))) # messages s"]
    by (auto simp: generate_question_def)
  have ga: "\<exists>p. generate_answer env s = Inr p" for s
    using llm [of "system_message (answer_instructions env (persona (analyst s)) (context_docs s))
                   # messages s"]
    by (auto simp: generate_answer_def)
  have sw: "\<exists>p. search_web env s = Inr p" for s
  proof -
    from sq obtain q where q: "llm_search_query env
        (system_message (search_instructions env) # messages s) = Inr q" by blast
    from web obtain docs where d: "tavily_search env q = Inr docs"
      and a: "list_all (\<lambda>d. \<not> isl (format_web_doc d)) docs" by blast
    from map_result_ok [OF a] obtain bs where "map_result format_web_doc docs = Inr bs" ..
    with q d show ?thesis by (simp add: search_web_def)
  qed
  have sk: "\<exists>p. search_wikipedia env s = Inr p" for s
  proof -
    from sq obtain q where q: "llm_search_query env
        (system_message (search_instructions env) # messages s) = Inr q" by blast
    from wiki obtain docs where d: "wikipedia_load env q = Inr docs"
      and a: "list_all (\<lambda>d. \<not> isl (format_wiki_doc d)) docs" by blast
    from map_result_ok [OF a] obtain bs where "map_result format_wiki_doc docs = Inr bs" ..
    with q d show ?thesis by (simp add: search_wikipedia_def)
  qed
  from gq obtain pq where pq: "generate_question env st = Inr pq" by blast
  from sw obtain pw where pw: "search_web env (apply_patch st pq) = Inr pw" by blast
  from sk obtain pk where pk: "search_wikipedia env (apply_patch st pq) = Inr pk" by blast
  from ga obtain pa where
    "generate_answer env (apply_patch (apply_patch (apply_patch st pq) pw) pk) = Inr pa"
    by blast
  with pq pw pk lim show ?thesis by (simp add: interview_cycle_def super_step_def Let_def)
qed

lemma conduct_loop_ok:
  "collaborators_ok env \<Longrightarrow>
   3 * (n + nat (max 1 (get_max_num_turns st - num_responses (messages st) ''expert''))) \<le> limit
   \<Longrightarrow> \<exists>m st'. conduct_loop limit env n st = Inr (m, st')"
proof (induction limit env n st rule: conduct_loop.induct)
  case (1 limit env n st)
  from "1.prems"(2) have "3 * n + 3 \<le> limit" by simp
  from interview_cycle_ok [OF "1.prems"(1) this] obtain st1 where
    cyc: "interview_cycle limit env (3 * n) st = Inr st1" by blast
  note g = interview_cycle_grows [OF cyc]
  from g(3) have "\<exists>nxt. route_messages st1 ''expert'' = Inr nxt"
    by (simp add: route_messages_cases)
  then obtain nxt where rt: "route_messages st1 ''expert'' = Inr nxt" ..
  show ?case
  proof (cases "nxt = ''ask_question''")
    case True
    with rt have "num_responses (messages st1) ''expert'' < get_max_num_turns st1"
      by (auto simp: route_messages_cases split: if_splits)
    with g "1.prems"(2)
    have "3 * (Suc n + nat (max 1 (get_max_num_turns st1
                                    - num_responses (messages st1) ''expert''))) \<le> limit"
      by simp
    from "1.IH" [OF cyc rt True "1.prems"(1) this] cyc rt True show ?thesis
      by (simp add: conduct_loop.simps [of limit env n st])
  next
    case False
    with cyc rt show ?thesis by (simp add: conduct_loop.simps [of limit env n st])
  qed
qed

text \<open>
  After the loop: \<^verbatim>\<open>save_interview\<close> and \<^verbatim>\<open>write_section\<close> need two more super-steps.
\<close>

lemma conduct_interview_after_loop:
  assumes loop: "conduct_loop limit0 env 0 st = Inr (n, st1)"
    and ok: "collaborators_ok env"
  shows "\<exists>sec. \<forall>limit. conduct_interview_within limit env st =
           (if 3 * n + 2 \<le> limit
            then Inr (n, st1\<lparr>interview := Some (get_buffer_string env (messages st1))\<rparr>, [sec])
            else Inl GraphRecursionError)"
proof -
  let ?st2 = "apply_patch st1 (save_interview env st1)"
  have st2: "?st2 = st1\<lparr>interview := Some (get_buffer_string env (messages st1))\<rparr>"
    by (simp add: apply_patch_def save_interview_def no_patch_def)
  from ok obtain r where "llm_invoke env
      [system_message (section_writer_instructions env (description (analyst ?st2))),
       human_message (''Use this source to write your section: ''
                      @ str_context env (context_docs ?st2))] = Inr r"
    using collaborators_ok_llm by blast
  then have w: "write_section env ?st2 = Inr (no_patch\<lparr>p_sections := Some [reply_content r]\<rparr>)"
    by (simp add: write_section_def st2)
  have "conduct_interview_within limit env st =
           (if 3 * n + 2 \<le> limit then Inr (n, ?st2, [reply_content r])
            else Inl GraphRecursionError)" for limit
    using conduct_loop_limit [OF loop, of limit] w
    by (simp add: conduct_interview_within_def super_step_def Let_def apply_patch_def
        no_patch_def)
  with st2 show ?thesis by auto
qed

lemma conduct_interview_runs:
  assumes ok: "collaborators_ok env"
  shows "\<exists>n st1 sec limit0.
           conduct_loop limit0 env 0 st = Inr (n, st1)
           \<and> (\<forall>limit. conduct_interview_within limit env st =
                 (if 3 * n + 2 \<le> limit
                  then Inr (n, st1\<lparr>interview := Some (get_buffer_string env (messages st1))\<rparr>,
                            [sec])
                  else Inl GraphRecursionError))"
proof -
  let ?limit0 = "3 * (0 + nat (max 1 (get_max_num_turns st
                                       - num_responses (messages st) ''expert'')))"
  from conduct_loop_ok [OF ok, of 0 st ?limit0] obtain n st1 where
    loop: "conduct_loop ?limit0 env 0 st = Inr (n, st1)" by blast
  from conduct_interview_after_loop [OF loop ok] loop show ?thesis by blast
qed

lemma collaborators_ok_example: "collaborators_ok example_env"
  by (simp add: collaborators_ok_def example_env_def format_web_doc_def format_wiki_doc_def
      dict_getitem_def)

text \<open>
  Claim C2, as stated, fails at both ends. With a turn limit of 0 the branch seeded
  with the opening message runs one ask/search/answer cycle, which is more than 0
  cycles. With a turn limit of 8 and no termination phrase the branch does not
  complete: its eight cycles, \<^verbatim>\<open>save_interview\<close> and \<^verbatim>\<open>write_section\<close> need 26 super-steps
  and the engine aborts the run at its recursion limit of 25.
\<close>

theorem turn_limit_cycle_counterexample:
  "get_max_num_turns (seeded_state (Some 0)) = 0
   \<and> map_sum id fst (conduct_interview example_env (seeded_state (Some 0))) = Inr 1
   \<and> get_max_num_turns (seeded_state (Some 8)) = 8
   \<and> conduct_interview example_env (seeded_state (Some 8)) = Inl GraphRecursionError"
proof (intro conjI)
  show "get_max_num_turns (seeded_state (Some 0)) = 0"
    by (simp add: get_max_num_turns_def seeded_state_def)
  show "map_sum id fst (conduct_interview example_env (seeded_state (Some 0))) = Inr 1"
    by code_simp
  show "get_max_num_turns (seeded_state (Some 8)) = 8"
    by (simp add: get_max_num_turns_def seeded_state_def)
  show "conduct_interview example_env (seeded_state (Some 8)) = Inl GraphRecursionError"
    by code_simp
qed

text \<open>
  Claim C2 (amended): let \<open>k\<close> be the turn limit, \<open>c\<close> the number of expert turns
  already in the history (0 for a branch started by the fan-out) and \<open>b = max 1 (k - c)\<close>
  (\<open>k\<close> itself for a fresh branch with \<open>k \<ge> 1\<close>). When every collaborator call
  returns, the loop run from \<^verbatim>\<open>ask_question\<close> stops after \<open>n\<close> ask/search/answer cycles
  with \<open>1 \<le> n \<le> b\<close>, never more. The asker turns of the run are the model's replies to
  the question prompt on the history so far. None before the last contains the
  termination phrase: a cycle whose asker turn contains it is the last, so a phrase in
  an earlier turn ends the loop sooner. If the loop stops before \<open>b\<close> cycles, the last
  asker turn contains the phrase (or an asker turn came back named \<^verbatim>\<open>expert\<close> and was
  counted); if neither happens it runs exactly \<open>b\<close> cycles. The branch then completes,
  through \<^verbatim>\<open>save_interview\<close> (the transcript is set) and \<^verbatim>\<open>write_section\<close> (one section),
  exactly when its \<open>3 * n + 2\<close> super-steps fit the engine's step limit: with the
  default limit of 25, when \<open>n \<le> 7\<close>; otherwise the run is aborted with
  \<^verbatim>\<open>GraphRecursionError\<close>.
\<close>

theorem interview_completes_within_max_turns:
  assumes ok: "collaborators_ok env"
  shows "\<exists>n st' sec qas.
           1 \<le> n
           \<and> int n \<le> max 1 (get_max_num_turns st - num_responses (messages st) ''expert'')
           \<and> length qas = n
           \<and> messages st' = transcript (messages st) qas
           \<and> (\<forall>j < n.
                 llm_invoke env
                   (system_message (question_instructions env (persona (analyst st)))
                    # transcript (messages st) (take j qas)) = Inr (fst (qas ! j)))
           \<and> (\<forall>q \<in> fst ` set (butlast qas).
                 \<not> sublist termination_phrase (reply_content q))
           \<and> (int n < max 1 (get_max_num_turns st - num_responses (messages st) ''expert'')
                \<longrightarrow> sublist termination_phrase (reply_content (fst (last qas)))
                    \<or> (\<exists>q \<in> fst ` set qas. reply_name q = Some ''expert''))
           \<and> interview st' = Some (get_buffer_string env (messages st'))
           \<and> (\<forall>limit. conduct_interview_within limit env st
                 = (if 3 * n + 2 \<le> limit then Inr (n, st', [sec])
                    else Inl GraphRecursionError))
           \<and> conduct_interview env st
               = (if n \<le> 7 then Inr (n, st', [sec]) else Inl GraphRecursionError)"
proof -
  let ?b = "max 1 (get_max_num_turns st - num_responses (messages st) ''expert'')"
  from conduct_interview_runs [OF ok] obtain n st1 sec limit0 where
    loop: "conduct_loop limit0 env 0 st = Inr (n, st1)"
    and run: "\<forall>limit. conduct_interview_within limit env st =
                 (if 3 * n + 2 \<le> limit
                  then Inr (n, st1\<lparr>interview := Some (get_buffer_string env (messages st1))\<rparr>,
                            [sec])
                  else Inl GraphRecursionError)"
    by blast
  let ?st' = "st1\<lparr>interview := Some (get_buffer_string env (messages st1))\<rparr>"
  from conduct_loop_bound [OF loop] have b: "1 \<le> n" "int n \<le> ?b" by simp_all
  from conduct_loop_transcript [OF loop] obtain qas where
    len: "length qas = n"
    and tr: "messages st1 = transcript (messages st) qas"
    and asked: "\<forall>j < length qas.
             llm_invoke env (system_message (question_instructions env (persona (analyst st)))
                             # transcript (messages st) (take j qas)) = Inr (fst (qas ! j))"
    and quiet: "\<forall>q \<in> fst ` set (butlast qas).
             \<not> sublist termination_phrase (reply_content q)"
    and early: "int n < ?b
            \<longrightarrow> sublist termination_phrase (reply_content (fst (last qas)))
                \<or> (\<exists>q \<in> fst ` set qas. reply_name q = Some ''expert'')"
    by auto
  have tr': "messages ?st' = transcript (messages st) qas" by (simp add: tr)
  have iv: "interview ?st' = Some (get_buffer_string env (messages ?st'))" by simp
  have std: "conduct_interview env st
               = (if n \<le> 7 then Inr (n, ?st', [sec]) else Inl GraphRecursionError)"
  proof -
    have "3 * n + 2 \<le> recursion_limit \<longleftrightarrow> n \<le> 7"
      by (auto simp: recursion_limit_def)
    with run show ?thesis by (simp add: conduct_interview_def)
  qed
  from asked len have asked': "\<forall>j < n.
             llm_invoke env (system_message (question_instructions env (persona (analyst st)))
                             # transcript (messages st) (take j qas)) = Inr (fst (qas ! j))"
    by simp
  from b len tr' asked' quiet early iv run std show ?thesis by blast
qed

theorem interview_completes_within_max_turns_witness:
  "collaborators_ok example_env
   \<and> map_sum id fst (conduct_interview example_env (seeded_state (Some 3))) = Inr 3"
proof -
  let ?st = "seeded_state (Some 3)"
  have c: "num_responses (messages ?st) ''expert'' = 0"
    by (simp add: seeded_state_def opening_message_def human_message_def num_responses_def)
  have k: "get_max_num_turns ?st = 3"
    by (simp add: seeded_state_def get_max_num_turns_def)
  from interview_completes_within_max_turns [OF collaborators_ok_example, of ?st]
  obtain n st' sec qas where
    n: "1 \<le> n" "int n \<le> max 1 (get_max_num_turns ?st - num_responses (messages ?st) ''expert'')"
    and len: "length qas = n"
    and asked: "\<forall>j < n.
                 llm_invoke example_env
                   (system_message (question_instructions example_env (persona (analyst ?st)))
                    # transcript (messages ?st) (take j qas)) = Inr (fst (qas ! j))"
    and early: "int n < max 1 (get_max_num_turns ?st - num_responses (messages ?st) ''expert'')
                \<longrightarrow> sublist termination_phrase (reply_content (fst (last qas)))
                    \<or> (\<exists>q \<in> fst ` set qas. reply_name q = Some ''expert'')"
    and run: "conduct_interview example_env ?st
               = (if n \<le> 7 then Inr (n, st', [sec]) else Inl GraphRecursionError)"
    by (elim exE conjE) (rule that)
  have reply: "fst (qas ! j) = \<lparr>reply_content = ''Noted.'', reply_name = None\<rparr>" if "j < n" for j
    using asked that by (auto simp: example_env_def)
  have all: "q = \<lparr>reply_content = ''Noted.'', reply_name = None\<rparr>" if "q \<in> fst ` set qas" for q
  proof -
    from that obtain p where p: "p \<in> set qas" and qp: "q = fst p" by auto
    from p obtain i where i: "i < length qas" and qi: "qas ! i = p"
      by (auto simp: in_set_conv_nth)
    from i len have "i < n" by simp
    from reply [OF this] qi qp show ?thesis by simp
  qed
  from n len have "qas \<noteq> []" by auto
  then have "fst (last qas) \<in> fst ` set qas" by simp
  from all [OF this]
  have "\<not> sublist termination_phrase (reply_content (fst (last qas)))"
    by (simp add: py_in_sublist [symmetric] termination_phrase_def)
  moreover have "\<not> (\<exists>q \<in> fst ` set qas. reply_name q = Some ''expert'')"
  proof
    assume "\<exists>q \<in> fst ` set qas. reply_name q = Some ''expert''"
    then obtain q where "q \<in> fst ` set qas" and e: "reply_name q = Some ''expert''" ..
    from all [OF this(1)] e show False by simp
  qed
  ultimately have "\<not> int n < max 1 (get_max_num_turns ?st
                                      - num_responses (messages ?st) ''expert'')"
    using early by blast
  with n have "n = 3" by (simp add: c k)
  with run collaborators_ok_example show ?thesis by simp
qed

text \<open>
  With a limit of 5, a model that thanks in its first question ends the run after one
  cycle.
\<close>

lemma thankful_asker_stops_early:
  "map_sum id fst (conduct_interview thankful_env (seeded_state (Some 5))) = Inr 1"
  by (simp add: conduct_interview_def conduct_interview_within_def recursion_limit_def
      super_step_def conduct_loop.simps interview_cycle_def
      generate_question_def search_web_def search_wikipedia_def generate_answer_def
      format_web_doc_def format_wiki_doc_def dict_getitem_def dict_get_def
      save_interview_def write_section_def apply_patch_def no_patch_def
      route_messages_def py_index_def num_responses_def get_max_num_turns_def
      thankful_env_def example_env_def seeded_state_def opening_message_def human_message_def
      ai_message_def system_message_def termination_phrase_def Let_def)

text \<open>
  Claim C5, as stated, fails on the branch seeded with the opening message, with a turn
  limit of 0 and no termination phrase anywhere: the run ends with one expert turn in
  the transcript, not zero.
\<close>

theorem zero_turn_limit_expert_turn_counterexample:
  "max_num_turns (seeded_state (Some 0)) = Some 0
   \<and> \<not> py_in termination_phrase (content opening_message)
   \<and> map_sum id (messages \<circ> fst \<circ> snd)
       (conduct_interview example_env (seeded_state (Some 0)))
     = Inr [opening_message,
            \<lparr>kind = AIMessage, content = ''Noted.'', name = None\<rparr>,
            \<lparr>kind = AIMessage, content = ''Noted.'', name = Some ''expert''\<rparr>]
   \<and> num_responses
       [opening_message,
        \<lparr>kind = AIMessage, content = ''Noted.'', name = None\<rparr>,
        \<lparr>kind = AIMessage, content = ''Noted.'', name = Some ''expert''\<rparr>] ''expert'' = 1"
  by (simp add: conduct_interview_def conduct_interview_within_def recursion_limit_def
      super_step_def conduct_loop.simps interview_cycle_def
      generate_question_def search_web_def search_wikipedia_def generate_answer_def
      format_web_doc_def format_wiki_doc_def dict_getitem_def dict_get_def
      save_interview_def write_section_def apply_patch_def no_patch_def
      route_messages_def py_index_def num_responses_def get_max_num_turns_def
      example_env_def seeded_state_def opening_message_def human_message_def
      ai_message_def system_message_def termination_phrase_def Let_def)

text \<open>
  Claim C5 (amended): with a turn limit of 0 the router returns \<^verbatim>\<open>save_interview\<close> on
  every history, whatever its length and whether or not the phrase occurs. The router
  runs only after \<^verbatim>\<open>answer_question\<close>, so a branch run from \<^verbatim>\<open>ask_question\<close> whose
  collaborators return performs exactly one cycle and completes with one question and
  one expert answer appended to its history; it does not loop.
\<close>

theorem zero_turn_limit_runs_one_cycle:
  assumes zero: "max_num_turns st = Some 0"
  shows "route_messages st ''expert'' = Inr ''save_interview''
         \<and> (collaborators_ok env \<longrightarrow>
              (\<exists>st' sec q a.
                 conduct_interview env st = Inr (1, st', [sec])
                 \<and> messages st' = messages st
                      @ [ai_message q, (ai_message a)\<lparr>name := Some ''expert''\<rparr>]))"
proof
  from zero have k: "get_max_num_turns st = 0" by (simp add: get_max_num_turns_def)
  with num_responses_nonneg [of "messages st" "''expert''"]
  show "route_messages st ''expert'' = Inr ''save_interview''"
    by (simp add: route_messages_cases)
  show "collaborators_ok env \<longrightarrow>
              (\<exists>st' sec q a.
                 conduct_interview env st = Inr (1, st', [sec])
                 \<and> messages st' = messages st
                      @ [ai_message q, (ai_message a)\<lparr>name := Some ''expert''\<rparr>])"
  proof
    assume ok: "collaborators_ok env"
    from conduct_interview_runs [OF ok] obtain n st1 sec limit0 where
      loop: "conduct_loop limit0 env 0 st = Inr (n, st1)"
      and run: "\<forall>limit. conduct_interview_within limit env st =
                 (if 3 * n + 2 \<le> limit
                  then Inr (n, st1\<lparr>interview := Some (get_buffer_string env (messages st1))\<rparr>,
                            [sec])
                  else Inl GraphRecursionError)"
      by blast
    from conduct_loop_bound [OF loop] k num_responses_nonneg [of "messages st" "''expert''"]
    have n: "n = Suc 0" by simp
    from loop n have "conduct_loop limit0 env 0 st = Inr (Suc 0, st1)" by simp
    from conduct_loop_one_cycle [OF this]
    have "interview_cycle limit0 env (3 * 0) st = Inr st1" .
    from interview_cycle_messages [OF this] obtain q a where
      m: "messages st1 = messages st @ [ai_message q, (ai_message a)\<lparr>name := Some ''expert''\<rparr>]"
      by blast
    from run n have "conduct_interview env st =
         Inr (1, st1\<lparr>interview := Some (get_buffer_string env (messages st1))\<rparr>, [sec])"
      by (simp add: conduct_interview_def recursion_limit_def)
    with m show "\<exists>st' sec q a.
                 conduct_interview env st = Inr (1, st', [sec])
                 \<and> messages st' = messages st
                      @ [ai_message q, (ai_message a)\<lparr>name := Some ''expert''\<rparr>]"
      by auto
  qed
qed

theorem zero_turn_limit_runs_one_cycle_witness:
  "max_num_turns (cold_start_state\<lparr>max_num_turns := Some 0\<rparr>) = Some 0
   \<and> route_messages (cold_start_state\<lparr>max_num_turns := Some 0\<rparr>) ''expert''
       = Inr ''save_interview''
   \<and> collaborators_ok example_env
   \<and> map_sum id fst
       (conduct_interview example_env (cold_start_state\<lparr>max_num_turns := Some 0\<rparr>)) = Inr 1"
proof -
  let ?st = "cold_start_state\<lparr>max_num_turns := Some 0\<rparr>"
  have z: "max_num_turns ?st = Some 0" by simp
  note t = zero_turn_limit_runs_one_cycle [OF z, of example_env]
  from t have r: "route_messages ?st ''expert'' = Inr ''save_interview''" by blast
  from t collaborators_ok_example obtain st' sec where
    "conduct_interview example_env ?st = Inr (1, st', [sec])" by blast
  with z r collaborators_ok_example show ?thesis by simp
qed

section \<open>The answer node\<close>

text \<open>
  Claim C7: when the language model returns, \<^verbatim>\<open>generate_answer\<close> returns a patch whose
  only key is \<^verbatim>\<open>messages\<close>, holding exactly one message: an \<^verbatim>\<open>AIMessage\<close> with the model's
  text, named \<^verbatim>\<open>expert\<close> whatever name the model gave it. Merging the patch appends that
  message and changes no other field of the state, and the router's expert-turn count
  grows by one.
\<close>

theorem generate_answer_appends_one_expert_message:
  assumes "llm_invoke env
             (system_message (answer_instructions env (persona (analyst st)) (context_docs st))
              # messages st) = Inr a"
  shows "\<exists>m. generate_answer env st
               = Inr \<lparr>p_messages = Some [m], p_context = None, p_interview = None,
                      p_sections = None\<rparr>
             \<and> kind m = AIMessage \<and> name m = Some ''expert'' \<and> content m = reply_content a
             \<and> apply_patch st \<lparr>p_messages = Some [m], p_context = None, p_interview = None,
                                p_sections = None\<rparr>
                 = st\<lparr>messages := messages st @ [m]\<rparr>
             \<and> num_responses (messages st @ [m]) ''expert''
                 = num_responses (messages st) ''expert'' + 1"
  using assms
  by (simp add: generate_answer_def no_patch_def apply_patch_def ai_message_def
      num_responses_def)

theorem generate_answer_appends_one_expert_message_witness:
  "generate_answer example_env (seeded_state None)
     = Inr \<lparr>p_messages = Some [\<lparr>kind = AIMessage, content = ''Noted.'', name = Some ''expert''\<rparr>],
            p_context = None, p_interview = None, p_sections = None\<rparr>"
proof -
  have "llm_invoke example_env
          (system_message (answer_instructions example_env
                             (persona (analyst (seeded_state None)))
                             (context_docs (seeded_state None)))
           # messages (seeded_state None))
        = Inr \<lparr>reply_content = ''Noted.'', reply_name = None\<rparr>"
    by (simp add: example_env_def)
  from generate_answer_appends_one_expert_message [OF this]
  obtain m where "generate_answer example_env (seeded_state None)
               = Inr \<lparr>p_messages = Some [m], p_context = None, p_interview = None,
                      p_sections = None\<rparr>"
    and "kind m = AIMessage" and "name m = Some ''expert''"
    and "content m = reply_content \<lparr>reply_content = ''Noted.'', reply_name = None\<rparr>"
    by blast
  then show ?thesis by (cases m) simp
qed

section \<open>Market odds\<close>

lemma map_of_fold_update:
  "map_of (fold (\<lambda>(k, v). AList.update k v) ps acc) k =
     (case map_of (rev ps) k of None \<Rightarrow> map_of acc k | Some v \<Rightarrow> Some v)"
  by (induction ps arbitrary: acc)
     (auto simp: update_conv' map_add_def split: option.splits)

lemma keys_fold_update:
  "fst ` set (fold (\<lambda>(k, v). AList.update k v) ps acc) = fst ` set ps \<union> fst ` set acc"
proof (induction ps arbitrary: acc)
  case Nil
  show ?case by simp
next
  case (Cons p ps)
  obtain k v where p: "p = (k, v)" by (cases p)
  have "fst ` set (fold (\<lambda>(k, v). AList.update k v) (p # ps) acc)
          = fst ` set ps \<union> fst ` set (AList.update k v acc)"
    by (simp add: p Cons.IH)
  also have "\<dots> = fst ` set ps \<union> ({k} \<union> fst ` set acc)"
    by (simp only: dom_update)
  also have "\<dots> = fst ` set (p # ps) \<union> fst ` set acc"
    by (auto simp: p)
  finally show ?case .
qed

lemma distinct_fold_update:
  "distinct (map fst acc) \<Longrightarrow> distinct (map fst (fold (\<lambda>(k, v). AList.update k v) ps acc))"
  by (induction ps arbitrary: acc) (auto simp: distinct_update)

lemma map_of_rev_last_binding:
  assumes "i < length zs"
    and "\<forall>j. i < j \<and> j < length zs \<longrightarrow> fst (zs ! j) \<noteq> fst (zs ! i)"
  shows "map_of (rev zs) (fst (zs ! i)) = Some (snd (zs ! i))"
  using assms
proof (induction zs rule: rev_induct)
  case Nil
  then show ?case by simp
next
  case (snoc z zs)
  show ?case
  proof (cases "i < length zs")
    case True
    from snoc.prems(2) [rule_format, of "length zs"] True
    have "fst ((zs @ [z]) ! length zs) \<noteq> fst ((zs @ [z]) ! i)"
      by simp
    with True have ne: "fst z \<noteq> fst (zs ! i)" by (simp add: nth_append)
    have "\<forall>j. i < j \<and> j < length zs \<longrightarrow> fst (zs ! j) \<noteq> fst (zs ! i)"
    proof (intro allI impI)
      fix j assume j: "i < j \<and> j < length zs"
      with snoc.prems(2) [rule_format, of j]
      have "fst ((zs @ [z]) ! j) \<noteq> fst ((zs @ [z]) ! i)" by simp
      with j True show "fst (zs ! j) \<noteq> fst (zs ! i)" by (simp add: nth_append)
    qed
    from snoc.IH [OF True this] True ne show ?thesis
      by (cases z) (auto simp: nth_append)
  next
    case False
    with snoc.prems(1) have "i = length zs" by simp
    then show ?thesis by (cases z) simp
  qed
qed

lemma format_market_odds_lookup:
  assumes i: "i < min (length (outcomes m)) (length (outcome_prices m))"
    and last: "\<forall>j. i < j \<and> j < min (length (outcomes m)) (length (outcome_prices m))
                 \<longrightarrow> outcomes m ! j \<noteq> outcomes m ! i"
  shows "map_of (format_market_odds m) (outcomes m ! i) = Some (outcome_prices m ! i)"
proof -
  let ?zs = "zip (outcomes m) (outcome_prices m)"
  from i have len: "i < length ?zs" by simp
  have "\<forall>j. i < j \<and> j < length ?zs \<longrightarrow> fst (?zs ! j) \<noteq> fst (?zs ! i)"
    using last i by auto
  from map_of_rev_last_binding [OF len this] i
  have "map_of (rev ?zs) (outcomes m ! i) = Some (outcome_prices m ! i)" by simp
  then show ?thesis by (simp add: format_market_odds_def map_of_fold_update)
qed

lemma format_market_odds_keys:
  "fst ` set (format_market_odds m)
     = set (take (min (length (outcomes m)) (length (outcome_prices m))) (outcomes m))"
proof -
  have "map fst (zip (outcomes m) (outcome_prices m))
          = take (min (length (outcomes m)) (length (outcome_prices m))) (outcomes m)"
    by (simp add: map_fst_zip_take)
  then have "fst ` set (zip (outcomes m) (outcome_prices m))
          = set (take (min (length (outcomes m)) (length (outcome_prices m))) (outcomes m))"
    by (metis set_map)
  then show ?thesis by (simp add: format_market_odds_def keys_fold_update)
qed

lemma format_market_odds_truncated:
  "format_market_odds m =
     format_market_odds
       (m\<lparr>outcomes := take (min (length (outcomes m)) (length (outcome_prices m))) (outcomes m),
          outcome_prices :=
            take (min (length (outcomes m)) (length (outcome_prices m))) (outcome_prices m)\<rparr>)"
proof -
  let ?n = "min (length (outcomes m)) (length (outcome_prices m))"
  have "zip (take ?n (outcomes m)) (take ?n (outcome_prices m))
          = take ?n (zip (outcomes m) (outcome_prices m))"
    by (simp add: take_zip)
  also have "\<dots> = zip (outcomes m) (outcome_prices m)" by simp
  finally show ?thesis by (simp add: format_market_odds_def)
qed

text \<open>
  Claim C10: \<^verbatim>\<open>format_market_odds\<close> returns a dict, not a string, and cannot raise (its
  model has no error result). With \<open>n\<close> the shorter of the two lengths: the keys are
  the first \<open>n\<close> outcome labels, each once; the label at index \<open>i < n\<close> is mapped to
  the price at index \<open>i\<close> (when a label is repeated, the price at its last index below
  \<open>n\<close> is the one that stays); and whatever either list holds from index \<open>n\<close> on is
  dropped silently: the result is that of the market truncated to \<open>n\<close> entries.
\<close>

theorem format_market_odds_is_truncating_dict:
  "fst ` set (format_market_odds m)
     = set (take (min (length (outcomes m)) (length (outcome_prices m))) (outcomes m))
   \<and> distinct (map fst (format_market_odds m))
   \<and> (\<forall>i < min (length (outcomes m)) (length (outcome_prices m)).
         (\<forall>j. i < j \<and> j < min (length (outcomes m)) (length (outcome_prices m))
                \<longrightarrow> outcomes m ! j \<noteq> outcomes m ! i)
         \<longrightarrow> map_of (format_market_odds m) (outcomes m ! i) = Some (outcome_prices m ! i))
   \<and> format_market_odds m =
       format_market_odds
         (m\<lparr>outcomes := take (min (length (outcomes m)) (length (outcome_prices m))) (outcomes m),
            outcome_prices :=
              take (min (length (outcomes m)) (length (outcome_prices m))) (outcome_prices m)\<rparr>)"
proof (intro conjI allI impI)
  show "fst ` set (format_market_odds m)
     = set (take (min (length (outcomes m)) (length (outcome_prices m))) (outcomes m))"
    by (rule format_market_odds_keys)
  show "distinct (map fst (format_market_odds m))"
    by (simp add: format_market_odds_def distinct_fold_update)
  show "format_market_odds m =
       format_market_odds
         (m\<lparr>outcomes := take (min (length (outcomes m)) (length (outcome_prices m))) (outcomes m),
            outcome_prices :=
              take (min (length (outcomes m)) (length (outcome_prices m))) (outcome_prices m)\<rparr>)"
    by (rule format_market_odds_truncated)
next
  fix i
  assume "i < min (length (outcomes m)) (length (outcome_prices m))"
    and "\<forall>j. i < j \<and> j < min (length (outcomes m)) (length (outcome_prices m))
                \<longrightarrow> outcomes m ! j \<noteq> outcomes m ! i"
  then show "map_of (format_market_odds m) (outcomes m ! i) = Some (outcome_prices m ! i)"
    by (rule format_market_odds_lookup)
qed

theorem format_market_odds_is_truncating_dict_witness:
  "length (outcomes mismatched_market) \<noteq> length (outcome_prices mismatched_market)
   \<and> fst ` set (format_market_odds mismatched_market) = {''Yes''}
   \<and> map_of (format_market_odds mismatched_market) ''Yes'' = Some (62 / 100)
   \<and> map_of (format_market_odds mismatched_market) ''No'' = None"
proof -
  have o: "outcomes mismatched_market = [''Yes'', ''No'']"
    and p: "outcome_prices mismatched_market = [62 / 100]"
    by (simp_all add: mismatched_market_def example_market_def)
  note t = format_market_odds_is_truncating_dict [of mismatched_market]
  from t have "fst ` set (format_market_odds mismatched_market)
      = set (take (min (length (outcomes mismatched_market))
                       (length (outcome_prices mismatched_market)))
                  (outcomes mismatched_market))"
    by blast
  then have keys: "fst ` set (format_market_odds mismatched_market) = {''Yes''}"
    by (simp add: o p)
  from t have "\<forall>i < min (length (outcomes mismatched_market))
                        (length (outcome_prices mismatched_market)).
         (\<forall>j. i < j \<and> j < min (length (outcomes mismatched_market))
                                 (length (outcome_prices mismatched_market))
                \<longrightarrow> outcomes mismatched_market ! j \<noteq> outcomes mismatched_market ! i)
         \<longrightarrow> map_of (format_market_odds mismatched_market) (outcomes mismatched_market ! i)
               = Some (outcome_prices mismatched_market ! i)"
    by blast
  from this [rule_format, of 0]
  have yes: "map_of (format_market_odds mismatched_market) ''Yes'' = Some (62 / 100)"
    by (simp add: o p)
  from keys have "''No'' \<notin> fst ` set (format_market_odds mismatched_market)" by simp
  then have no: "map_of (format_market_odds mismatched_market) ''No'' = None"
    by (simp add: map_of_eq_None_iff)
  from keys yes no show ?thesis by (simp add: o p)
qed

section \<open>Persona generation\<close>

text \<open>
  Claim C4, as stated, fails on a market with two outcomes and one price: the first
  node, \<^verbatim>\<open>create_analysts\<close>, runs on it and returns its analysts; nothing is rejected.
\<close>

theorem create_analysts_mismatched_counterexample:
  "length (outcomes (market (pipeline_state mismatched_market [] [])))
     \<noteq> length (outcome_prices (market (pipeline_state mismatched_market [] [])))
   \<and> create_analysts example_env (pipeline_state mismatched_market [] [])
       = Inr \<lparr>p_analysts = Some [example_analyst, second_analyst], p_recommendation = None\<rparr>"
  by (simp add: create_analysts_def pipeline_state_def mismatched_market_def
      example_market_def example_env_def Let_def)

text \<open>
  Claim C4 (amended): the nodes check no lengths. On every market, one with mismatched
  outcome and price lengths included, \<^verbatim>\<open>create_analysts\<close> runs and returns the analysts
  the model produces for a prompt built from the odds of
  \<^verbatim>\<open>zip(outcomes, outcome_prices)\<close>, which has at most as many entries as the shorter
  list.
\<close>

theorem create_analysts_runs_on_any_market:
  assumes "llm_perspectives env
             [system_message
                (analyst_instructions env (market st) (format_market_odds (market st))
                   (max_analysts st)),
              human_message ''Generate the set of analysts.''] = Inr team"
  shows "create_analysts env st = Inr \<lparr>p_analysts = Some team, p_recommendation = None\<rparr>
         \<and> length (format_market_odds (market st))
             \<le> min (length (outcomes (market st))) (length (outcome_prices (market st)))"
proof -
  have "distinct (map fst (format_market_odds (market st)))"
    by (simp add: format_market_odds_def distinct_fold_update)
  from distinct_card [OF this]
  have "length (format_market_odds (market st))
          = card (fst ` set (format_market_odds (market st)))"
    by simp
  also have "\<dots> = card (set (take (min (length (outcomes (market st)))
                                      (length (outcome_prices (market st))))
                                (outcomes (market st))))"
    by (simp only: format_market_odds_keys)
  also have "\<dots> \<le> length (take (min (length (outcomes (market st)))
                                  (length (outcome_prices (market st))))
                            (outcomes (market st)))"
    by (rule card_length)
  also have "\<dots> = min (length (outcomes (market st))) (length (outcome_prices (market st)))"
    by simp
  finally have "length (format_market_odds (market st))
      \<le> min (length (outcomes (market st))) (length (outcome_prices (market st)))" .
  with assms show ?thesis by (simp add: create_analysts_def Let_def)
qed

theorem create_analysts_runs_on_any_market_witness:
  "length (outcomes mismatched_market) \<noteq> length (outcome_prices mismatched_market)
   \<and> create_analysts example_env (pipeline_state mismatched_market [] [])
       = Inr \<lparr>p_analysts = Some [example_analyst, second_analyst], p_recommendation = None\<rparr>
   \<and> length (format_market_odds mismatched_market) \<le> 1"
proof -
  let ?st = "pipeline_state mismatched_market [] []"
  have "llm_perspectives example_env
             [system_message
                (analyst_instructions example_env (market ?st) (format_market_odds (market ?st))
                   (max_analysts ?st)),
              human_message ''Generate the set of analysts.'']
          = Inr [example_analyst, second_analyst]"
    by (simp add: example_env_def)
  from create_analysts_runs_on_any_market [OF this] show ?thesis
    by (simp add: pipeline_state_def mismatched_market_def example_market_def)
qed

section \<open>Recommendation synthesis\<close>

lemma py_join_closed_form:
  "py_join sep xs = (if xs = [] then [] else concat (map (\<lambda>x. x @ sep) (butlast xs)) @ last xs)"
  by (induction sep xs rule: py_join.induct) simp_all

text \<open>
  Claim C8: the input of the synthesis is built from the market, the market odds of
  \<^verbatim>\<open>format_market_odds\<close> (each outcome label paired with the price at its index) and
  the sections in list order, each once, separated by a blank line; when the model
  returns a recommendation, the patch holds exactly that recommendation and nothing
  else.
\<close>

theorem write_recommendation_spec:
  assumes "llm_recommendation env
             [system_message
                (recommendation_instructions env (market st) (format_market_odds (market st))
                   (if sections st = [] then []
                    else concat (map (\<lambda>s. s @ newline @ newline) (butlast (sections st)))
                         @ last (sections st))),
              human_message ''Create a recommendation based upon these memos.''] = Inr r"
  shows "write_recommendation env st = Inr \<lparr>p_analysts = None, p_recommendation = Some r\<rparr>
         \<and> (\<forall>i < min (length (outcomes (market st))) (length (outcome_prices (market st))).
               (\<forall>j. i < j \<and> j < min (length (outcomes (market st)))
                                       (length (outcome_prices (market st)))
                      \<longrightarrow> outcomes (market st) ! j \<noteq> outcomes (market st) ! i)
               \<longrightarrow> map_of (format_market_odds (market st)) (outcomes (market st) ! i)
                     = Some (outcome_prices (market st) ! i))"
proof (intro conjI allI impI)
  from assms
  show "write_recommendation env st = Inr \<lparr>p_analysts = None, p_recommendation = Some r\<rparr>"
    by (simp add: write_recommendation_def Let_def py_join_closed_form)
next
  fix i
  assume "i < min (length (outcomes (market st))) (length (outcome_prices (market st)))"
    and "\<forall>j. i < j \<and> j < min (length (outcomes (market st)))
                               (length (outcome_prices (market st)))
              \<longrightarrow> outcomes (market st) ! j \<noteq> outcomes (market st) ! i"
  then show "map_of (format_market_odds (market st)) (outcomes (market st) ! i)
               = Some (outcome_prices (market st) ! i)"
    by (rule format_market_odds_lookup)
qed

theorem write_recommendation_spec_witness:
  "write_recommendation example_env (pipeline_state example_market [] [''Memo A'', ''Memo B''])
     = Inr \<lparr>p_analysts = None,
            p_recommendation =
              Some \<lparr>outcome = ''Yes'', conviction = 7 / 10, reasoning = ''Memos agree.''\<rparr>\<rparr>
   \<and> map_of (format_market_odds example_market) ''No'' = Some (38 / 100)"
proof -
  let ?st = "pipeline_state example_market [] [''Memo A'', ''Memo B'']"
  have "llm_recommendation example_env
             [system_message
                (recommendation_instructions example_env (market ?st)
                   (format_market_odds (market ?st))
                   (if sections ?st = [] then []
                    else concat (map (\<lambda>s. s @ newline @ newline) (butlast (sections ?st)))
                         @ last (sections ?st))),
              human_message ''Create a recommendation based upon these memos.'']
        = Inr \<lparr>outcome = ''Yes'', conviction = 7 / 10, reasoning = ''Memos agree.''\<rparr>"
    by (simp add: example_env_def)
  note t = write_recommendation_spec [OF this]
  have o: "outcomes (market ?st) = [''Yes'', ''No'']"
    and p: "outcome_prices (market ?st) = [62 / 100, 38 / 100]"
    by (simp_all add: pipeline_state_def example_market_def)
  from t have "\<forall>i < min (length (outcomes (market ?st))) (length (outcome_prices (market ?st))).
               (\<forall>j. i < j \<and> j < min (length (outcomes (market ?st)))
                                       (length (outcome_prices (market ?st)))
                      \<longrightarrow> outcomes (market ?st) ! j \<noteq> outcomes (market ?st) ! i)
               \<longrightarrow> map_of (format_market_odds (market ?st)) (outcomes (market ?st) ! i)
                     = Some (outcome_prices (market ?st) ! i)"
    by blast
  then have "(1::nat) < min (length (outcomes (market ?st))) (length (outcome_prices (market ?st)))
               \<longrightarrow> (\<forall>j. 1 < j \<and> j < min (length (outcomes (market ?st)))
                                       (length (outcome_prices (market ?st)))
                      \<longrightarrow> outcomes (market ?st) ! j \<noteq> outcomes (market ?st) ! 1)
               \<longrightarrow> map_of (format_market_odds (market ?st)) (outcomes (market ?st) ! 1)
                     = Some (outcome_prices (market ?st) ! 1)"
    by blast
  then have "map_of (format_market_odds (market ?st)) ''No'' = Some (38 / 100)"
    by (simp add: o p)
  then have "map_of (format_market_odds example_market) ''No'' = Some (38 / 100)"
    by (simp add: pipeline_state_def)
  with t show ?thesis by blast
qed

section \<open>Fan-out\<close>

lemma conduct_interview_one_section:
  assumes "conduct_interview env st = Inr (n, st', secs)"
  shows "length secs = 1"
  using assms
  by (auto simp: conduct_interview_def conduct_interview_within_def super_step_def
      write_section_def no_patch_def Let_def
      split: sum.splits option.splits prod.splits if_splits)

lemma run_branches_lengths:
  "run_branches env ss = Inr cs \<Longrightarrow> length (concat cs) = length ss"
proof (induction ss arbitrary: cs)
  case Nil
  then show ?case by simp
next
  case (Cons s ss)
  from Cons.prems obtain n st' secs rest where
    one: "conduct_interview env (start_interview (send_arg s)) = Inr (n, st', secs)"
    and rest: "run_branches env ss = Inr rest"
    and cs: "cs = secs # rest"
    by (auto split: sum.splits)
  from conduct_interview_one_section [OF one] Cons.IH [OF rest] cs
  show ?case by simp
qed

lemma run_branches_ok:
  assumes ok: "collaborators_ok env"
  shows "\<exists>cs. run_branches env ss = Inr cs"
proof (induction ss)
  case Nil
  show ?case by simp
next
  case (Cons s ss)
  let ?s0 = "start_interview (send_arg s)"
  from conduct_interview_runs [OF ok, of ?s0] obtain n st1 sec limit0 where
    loop: "conduct_loop limit0 env 0 ?s0 = Inr (n, st1)"
    and run: "\<forall>limit. conduct_interview_within limit env ?s0 =
                 (if 3 * n + 2 \<le> limit
                  then Inr (n, st1\<lparr>interview := Some (get_buffer_string env (messages st1))\<rparr>,
                            [sec])
                  else Inl GraphRecursionError)"
    by blast
  have "get_max_num_turns ?s0 = 2"
    by (simp add: start_interview_def get_max_num_turns_def)
  with conduct_loop_bound [OF loop] num_responses_nonneg [of "messages ?s0" "''expert''"]
  have "int n \<le> 2" by linarith
  then have "n \<le> 2" by simp
  with run have "conduct_interview env ?s0 =
      Inr (n, st1\<lparr>interview := Some (get_buffer_string env (messages st1))\<rparr>, [sec])"
    by (simp add: conduct_interview_def recursion_limit_def)
  with Cons.IH show ?case by auto
qed

text \<open>
  Claim C3: for \<open>N\<close> analysts the fan-out router returns \<open>N\<close> directives, the
  \<open>i\<close>-th starting \<^verbatim>\<open>conduct_interview\<close> with the \<open>i\<close>-th analyst and the single opening
  message about the market question; the branch started from it has a state of its own
  with that analyst, that message and nothing else. When the interviews succeed, the
  pipeline state changes in its sections only, which gain exactly \<open>N\<close> entries; and
  they succeed whenever the collaborators return.
\<close>

theorem fan_out_cardinality:
  "length (initiate_all_interviews st) = length (analysts st)
   \<and> (\<forall>i < length (analysts st).
         initiate_all_interviews st ! i
           = \<lparr>send_node = ''conduct_interview'',
              send_arg = \<lparr>in_analyst = analysts st ! i,
                          in_messages =
                            [human_message
                               (''So you said you were analyzing the market question: ''
                                @ question (market st) @ ''?'')]\<rparr>\<rparr>
         \<and> start_interview (send_arg (initiate_all_interviews st ! i))
           = \<lparr>analyst = analysts st ! i,
              messages =
                [human_message
                   (''So you said you were analyzing the market question: ''
                    @ question (market st) @ ''?'')],
              context_docs = [], interview = None, max_num_turns = None\<rparr>)
   \<and> (\<forall>st'. conduct_interviews env st = Inr st' \<longrightarrow>
         (\<exists>new. st' = st\<lparr>sections := sections st @ new\<rparr>
                \<and> length new = length (analysts st)))
   \<and> (collaborators_ok env \<longrightarrow> (\<exists>st'. conduct_interviews env st = Inr st'))"
proof (intro conjI allI impI)
  show len: "length (initiate_all_interviews st) = length (analysts st)"
    by (simp add: initiate_all_interviews_def)
  {
    fix i assume "i < length (analysts st)"
    then show "initiate_all_interviews st ! i
           = \<lparr>send_node = ''conduct_interview'',
              send_arg = \<lparr>in_analyst = analysts st ! i,
                          in_messages =
                            [human_message
                               (''So you said you were analyzing the market question: ''
                                @ question (market st) @ ''?'')]\<rparr>\<rparr>"
      by (simp add: initiate_all_interviews_def)
    then show "start_interview (send_arg (initiate_all_interviews st ! i))
           = \<lparr>analyst = analysts st ! i,
              messages =
                [human_message
                   (''So you said you were analyzing the market question: ''
                    @ question (market st) @ ''?'')],
              context_docs = [], interview = None, max_num_turns = None\<rparr>"
      by (simp add: start_interview_def)
  }
  {
    fix st' assume "conduct_interviews env st = Inr st'"
    then obtain cs where cs: "run_branches env (initiate_all_interviews st) = Inr cs"
      and st': "st' = st\<lparr>sections := sections st @ concat cs\<rparr>"
      by (auto simp: conduct_interviews_def split: sum.splits)
    from run_branches_lengths [OF cs] len have "length (concat cs) = length (analysts st)"
      by simp
    with st' show "\<exists>new. st' = st\<lparr>sections := sections st @ new\<rparr>
                \<and> length new = length (analysts st)"
      by blast
  }
  {
    assume "collaborators_ok env"
    from run_branches_ok [OF this] obtain cs where
      "run_branches env (initiate_all_interviews st) = Inr cs" ..
    then show "\<exists>st'. conduct_interviews env st = Inr st'"
      by (simp add: conduct_interviews_def)
  }
qed

theorem fan_out_cardinality_witness:
  "length (initiate_all_interviews
             (pipeline_state example_market [example_analyst, second_analyst] [])) = 2
   \<and> collaborators_ok example_env
   \<and> map_sum id (length \<circ> sections)
       (conduct_interviews example_env
          (pipeline_state example_market [example_analyst, second_analyst] [])) = Inr 2"
proof -
  let ?st = "pipeline_state example_market [example_analyst, second_analyst] []"
  note t = fan_out_cardinality [of ?st example_env]
  have a: "analysts ?st = [example_analyst, second_analyst]" and s: "sections ?st = []"
    by (simp_all add: pipeline_state_def)
  from t have l: "length (initiate_all_interviews ?st) = length (analysts ?st)" by blast
  from t collaborators_ok_example obtain st' where
    run: "conduct_interviews example_env ?st = Inr st'" by blast
  with t obtain new where "st' = ?st\<lparr>sections := sections ?st @ new\<rparr>"
    and "length new = length (analysts ?st)" by blast
  then have "length (sections st') = 2" by (simp add: a s)
  with run l a collaborators_ok_example show ?thesis by simp
qed

end
